theory Spec2Isabelle
  imports Complex_Main "HOL-Library.Sublist"
begin

section \<open>Small dense linear algebra\<close>

text \<open>
  The transform class of \<^verbatim>\<open>lib/registration/transform/base.h\<close> stores its data in
  fixed-size Eigen objects over \<^verbatim>\<open>default_type\<close> (a \<^verbatim>\<open>double\<close>). The coefficients are
  idealised here as real numbers; vectors and matrices are tuples, matrices row by row.
\<close>

type_synonym vec3 = "real \<times> real \<times> real"
type_synonym mat3 = "vec3 \<times> vec3 \<times> vec3"
type_synonym vec4 = "real \<times> real \<times> real \<times> real"
type_synonym mat4 = "vec4 \<times> vec4 \<times> vec4 \<times> vec4"

fun vadd :: "vec3 \<Rightarrow> vec3 \<Rightarrow> vec3" where
  "vadd (a, b, c) (x, y, z) = (a + x, b + y, c + z)"

fun vsub :: "vec3 \<Rightarrow> vec3 \<Rightarrow> vec3" where
  "vsub (a, b, c) (x, y, z) = (a - x, b - y, c - z)"

fun vneg :: "vec3 \<Rightarrow> vec3" where
  "vneg (a, b, c) = (- a, - b, - c)"

fun dot :: "vec3 \<Rightarrow> vec3 \<Rightarrow> real" where
  "dot (a, b, c) (x, y, z) = a * x + b * y + c * z"

fun mat_vec :: "mat3 \<Rightarrow> vec3 \<Rightarrow> vec3" where
  "mat_vec (r1, r2, r3) v = (dot r1 v, dot r2 v, dot r3 v)"

fun transpose3 :: "mat3 \<Rightarrow> mat3" where
  "transpose3 ((a, b, c), (d, e, f), (g, h, i)) = ((a, d, g), (b, e, h), (c, f, i))"

fun mat_mul :: "mat3 \<Rightarrow> mat3 \<Rightarrow> mat3" where
  "mat_mul (r1, r2, r3) B =
     (let C = transpose3 B in (mat_vec C r1, mat_vec C r2, mat_vec C r3))"

fun det3 :: "mat3 \<Rightarrow> real" where
  "det3 ((a, b, c), (d, e, f), (g, h, i)) =
     a * (e * i - f * h) - b * (d * i - f * g) + c * (d * h - e * g)"

fun adjugate3 :: "mat3 \<Rightarrow> mat3" where
  "adjugate3 ((a, b, c), (d, e, f), (g, h, i)) =
     ((e * i - f * h, c * h - b * i, b * f - c * e),
      (f * g - d * i, a * i - c * g, c * d - a * f),
      (d * h - e * g, b * g - a * h, a * e - b * d))"

fun scale3 :: "real \<Rightarrow> mat3 \<Rightarrow> mat3" where
  "scale3 k ((a, b, c), (d, e, f), (g, h, i)) =
     ((k * a, k * b, k * c), (k * d, k * e, k * f), (k * g, k * h, k * i))"

definition identity3 :: mat3 where
  "identity3 = ((1, 0, 0), (0, 1, 0), (0, 0, 1))"

fun det4 :: "mat4 \<Rightarrow> real" where
  "det4 ((a1, a2, a3, a4), (b1, b2, b3, b4), (c1, c2, c3, c4), (d1, d2, d3, d4)) =
       a1 * det3 ((b2, b3, b4), (c2, c3, c4), (d2, d3, d4))
     - a2 * det3 ((b1, b3, b4), (c1, c3, c4), (d1, d3, d4))
     + a3 * det3 ((b1, b2, b4), (c1, c2, c4), (d1, d2, d4))
     - a4 * det3 ((b1, b2, b3), (c1, c2, c3), (d1, d2, d3))"

text \<open>
  \<^verbatim>\<open>Eigen::Transform<ParameterType, 3, Eigen::AffineCompact>\<close>: a 3x4 matrix, the 3x3
  block \<^verbatim>\<open>linear()\<close> followed by the column \<^verbatim>\<open>translation()\<close>. (The field is called
  \<open>linear_part\<close> because \<open>linear\<close> is a constant of the library.)
\<close>

record transform_type =
  linear_part :: mat3
  translation :: vec3

text \<open>\<^verbatim>\<open>matrix().setIdentity()\<close> on a 3x4 transform.\<close>

definition Identity :: transform_type where
  "Identity = \<lparr>linear_part = identity3, translation = (0, 0, 0)\<rparr>"

text \<open>\<^verbatim>\<open>A * B\<close> on transforms (first \<open>B\<close>, then \<open>A\<close>) and \<^verbatim>\<open>A * p\<close> on a point.\<close>

definition trafo_mult :: "transform_type \<Rightarrow> transform_type \<Rightarrow> transform_type" where
  "trafo_mult A B =
     \<lparr>linear_part = mat_mul (linear_part A) (linear_part B),
      translation = vadd (mat_vec (linear_part A) (translation B)) (translation A)\<rparr>"

definition trafo_apply :: "transform_type \<Rightarrow> vec3 \<Rightarrow> vec3" where
  "trafo_apply A p = vadd (mat_vec (linear_part A) p) (translation A)"

text \<open>
  \<^verbatim>\<open>A.inverse()\<close>: the linear block is inverted through its cofactors and determinant,
  the translation becomes \<open>- L\<^sup>-\<^sup>1 t\<close>. On a singular block the floating-point code
  divides by zero and yields non-finite coefficients, which a real matrix cannot hold:
  that case is \<open>None\<close>.
\<close>

definition trafo_inverse :: "transform_type \<Rightarrow> transform_type option" where
  "trafo_inverse A =
     (if det3 (linear_part A) = 0 then None
      else (let Li = scale3 (1 / det3 (linear_part A)) (adjugate3 (linear_part A))
            in Some \<lparr>linear_part = Li, translation = vneg (mat_vec Li (translation A))\<rparr>))"

text \<open>
  The 4x4 homogeneous form built in \<^verbatim>\<open>compute_halfspace_transformations\<close>:
  \<^verbatim>\<open>tmp.setIdentity(); tmp.block<3,4>(0,0) = trafo.matrix();\<close> and the two blocks read
  back from a 4x4 matrix.
\<close>

definition homogeneous :: "transform_type \<Rightarrow> mat4" where
  "homogeneous A =
     (case linear_part A of ((a, b, c), (d, e, f), (g, h, i)) \<Rightarrow>
      case translation A of (x, y, z) \<Rightarrow>
        ((a, b, c, x), (d, e, f, y), (g, h, i, z), (0, 0, 0, 1)))"

fun block33 :: "mat4 \<Rightarrow> mat3" where
  "block33 ((a1, a2, a3, a4), (b1, b2, b3, b4), (c1, c2, c3, c4), r4) =
     ((a1, a2, a3), (b1, b2, b3), (c1, c2, c3))"

fun block34 :: "mat4 \<Rightarrow> transform_type" where
  "block34 ((a1, a2, a3, a4), (b1, b2, b3, b4), (c1, c2, c3, c4), r4) =
     \<lparr>linear_part = ((a1, a2, a3), (b1, b2, b3), (c1, c2, c3)),
      translation = (a4, b4, c4)\<rparr>"



section \<open>The transform base class\<close>

text \<open>
  What the class takes from the Eigen library and is not part of the repository: the
  matrix square root (\<^verbatim>\<open>tmp.sqrt()\<close>, \<open>None\<close> when the result has non-finite
  coefficients) and the approximate comparison \<^verbatim>\<open>isApprox\<close> at the two shapes used.
\<close>

record eigen_lib =
  mat_sqrt :: "mat4 \<Rightarrow> mat4 option"
  isApprox3 :: "mat3 \<Rightarrow> mat3 \<Rightarrow> bool"
  isApprox34 :: "transform_type \<Rightarrow> transform_type \<Rightarrow> bool"

text \<open>
  A failed \<^verbatim>\<open>assert\<close> (with the asserted expression) ends the program, as a thrown
  \<^verbatim>\<open>Exception\<close> (with its message) ends \<^verbatim>\<open>run\<close>.
\<close>

datatype failure = AssertionFailed string | Exception string

text \<open>
  The members of \<^verbatim>\<open>Base\<close>. The members \<^verbatim>\<open>matrix\<close>, \<^verbatim>\<open>translation\<close> and \<^verbatim>\<open>offset\<close>
  (kept "only for the rigid class") are never written or read in this class and are left
  out; \<^verbatim>\<open>optimiser_weights\<close> is allocated without initial values (\<open>None\<close>).
\<close>

record base =
  number_of_parameters :: nat
  trafo :: transform_type
  trafo_half :: transform_type
  trafo_half_inverse :: transform_type
  centre :: vec3
  optimiser_weights :: "real option list"

definition Base :: "nat \<Rightarrow> base" where
  "Base n =
     \<lparr>number_of_parameters = n,
      trafo = Identity,
      trafo_half = Identity,
      trafo_half_inverse = Identity,
      centre = (0, 0, 0),
      optimiser_weights = replicate n None\<rparr>"

definition transform :: "base \<Rightarrow> vec3 \<Rightarrow> vec3" where
  "transform s p = trafo_apply (trafo s) p"

definition transform_half :: "base \<Rightarrow> vec3 \<Rightarrow> vec3" where
  "transform_half s p = trafo_apply (trafo_half s) p"

definition transform_half_inverse :: "base \<Rightarrow> vec3 \<Rightarrow> vec3" where
  "transform_half_inverse s p = trafo_apply (trafo_half_inverse s) p"

definition get_transform :: "base \<Rightarrow> transform_type" where
  "get_transform s = trafo s"

definition get_transform_half :: "base \<Rightarrow> transform_type" where
  "get_transform_half s = trafo_half s"

definition get_transform_half_inverse :: "base \<Rightarrow> transform_type" where
  "get_transform_half_inverse s = trafo_half_inverse s"

definition get_matrix :: "base \<Rightarrow> mat3" where
  "get_matrix s = linear_part (trafo s)"

definition get_translation :: "base \<Rightarrow> vec3" where
  "get_translation s = translation (trafo s)"

definition get_centre :: "base \<Rightarrow> vec3" where
  "get_centre s = centre s"

text \<open>\<^verbatim>\<open>offset = trafo.translation() + centre - trafo.linear() * centre\<close>.\<close>

definition compute_offset :: "base \<Rightarrow> base" where
  "compute_offset s =
     (let offset = vsub (vadd (translation (trafo s)) (centre s))
                        (mat_vec (linear_part (trafo s)) (centre s))
      in s\<lparr>trafo := (trafo s)\<lparr>translation := offset\<rparr>\<rparr>)"

text \<open>
  The four assertions are checked in the order of the source. A square root or an inverse
  with non-finite coefficients makes the comparison that uses it false.
\<close>

definition compute_halfspace_transformations :: "eigen_lib \<Rightarrow> base \<Rightarrow> failure + base" where
  "compute_halfspace_transformations E s =
     (let tmp = homogeneous (trafo s) in
      if \<not> isApprox3 E (block33 tmp) (linear_part (trafo s))
      then Inl (AssertionFailed ''(tmp.template block<3,3>(0,0).isApprox(trafo.linear()))'')
      else if \<not> det4 tmp > 0
      then Inl (AssertionFailed ''tmp.determinant() > 0'')
      else
        (case mat_sqrt E tmp of
           None \<Rightarrow>
             Inl (AssertionFailed ''trafo.matrix().isApprox((trafo_half*trafo_half).matrix())'')
         | Some sqrt_tmp \<Rightarrow>
             (let half = block34 sqrt_tmp;
                  half_inverse = trafo_inverse half
              in
                if \<not> isApprox34 E (trafo s) (trafo_mult half half)
                then Inl (AssertionFailed
                  ''trafo.matrix().isApprox((trafo_half*trafo_half).matrix())'')
                else
                  (case (trafo_inverse (trafo s), half_inverse) of
                     (Some trafo_inv, Some half_inv) \<Rightarrow>
                       (if \<not> isApprox34 E trafo_inv (trafo_mult half_inv half_inv)
                        then Inl (AssertionFailed
                          ''trafo.inverse().matrix().isApprox((trafo_half_inverse*trafo_half_inverse).matrix())'')
                        else Inr (s\<lparr>trafo_half := half, trafo_half_inverse := half_inv\<rparr>))
                   | _ \<Rightarrow>
                       Inl (AssertionFailed
                         ''trafo.inverse().matrix().isApprox((trafo_half_inverse*trafo_half_inverse).matrix())'')))))"

definition set_transform :: "eigen_lib \<Rightarrow> transform_type \<Rightarrow> base \<Rightarrow> failure + base" where
  "set_transform E T s = compute_halfspace_transformations E (s\<lparr>trafo := T\<rparr>)"

definition set_matrix :: "eigen_lib \<Rightarrow> mat3 \<Rightarrow> base \<Rightarrow> failure + base" where
  "set_matrix E mat s =
     compute_halfspace_transformations E
       (compute_offset (s\<lparr>trafo := (trafo s)\<lparr>linear_part := mat\<rparr>\<rparr>))"

definition set_translation :: "eigen_lib \<Rightarrow> vec3 \<Rightarrow> base \<Rightarrow> failure + base" where
  "set_translation E trans_in s =
     compute_halfspace_transformations E
       (compute_offset (s\<lparr>trafo := (trafo s)\<lparr>translation := trans_in\<rparr>\<rparr>))"

definition set_centre :: "eigen_lib \<Rightarrow> vec3 \<Rightarrow> base \<Rightarrow> failure + base" where
  "set_centre E centre_in s =
     compute_halfspace_transformations E (compute_offset (s\<lparr>centre := centre_in\<rparr>))"

definition set_offset :: "eigen_lib \<Rightarrow> vec3 \<Rightarrow> base \<Rightarrow> failure + base" where
  "set_offset E offset_in s =
     compute_halfspace_transformations E (s\<lparr>trafo := (trafo s)\<lparr>translation := offset_in\<rparr>\<rparr>)"

text \<open>
  \<^verbatim>\<open>robust_estimate\<close> is a template over the vector type; the loop adds every estimate
  onto \<^verbatim>\<open>gradient\<close> in turn. The result is the updated gradient and the returned flag.
\<close>

definition robust_estimate :: "'v::plus \<Rightarrow> 'v list \<Rightarrow> 'p \<Rightarrow> 'v \<Rightarrow> 'v \<times> bool" where
  "robust_estimate gradient grad_estimates params parameter_vector =
     (foldl (\<lambda>g grad_estimate. g + grad_estimate) gradient grad_estimates, True)"



section \<open>The registration command\<close>

text \<open>
  \<^verbatim>\<open>run\<close> of \<^verbatim>\<open>cmd/mrregister.cpp\<close> as a state transformer. The state holds the local
  variables of \<^verbatim>\<open>run\<close> that steer it, the pending failure (a thrown \<^verbatim>\<open>Exception\<close> or a
  failed assertion of the transform class), the three registration objects, and the
  trace of what the command did to the outside: warnings, created images, the
  registrations it ran, saved transforms and the output resampling. Progress messages
  (\<^verbatim>\<open>CONSOLE\<close>, \<^verbatim>\<open>INFO\<close>), the reading of input files, the masks and the direction
  matrix carry no decision and are not recorded; calls into the collaborators are taken
  to return.
\<close>

datatype stage = Rigid | Affine

datatype init_type = Init_mass | Init_geometric | Init_moments | Init_none

datatype LinearMetricType = Diff | NCC

datatype LinearRobustMetricEstimatorType = L1 | L2 | LP | None_estimator

datatype metric =
    MeanSquared
  | MeanSquared4D
  | CrossCorrelation
  | DifferenceRobust LinearRobustMetricEstimatorType
  | DifferenceRobust4D LinearRobustMetricEstimatorType

text \<open>
  A \<^verbatim>\<open>Registration::Linear\<close> object and the \<^verbatim>\<open>Registration::SyN\<close> object, as the command
  sees them: the last value handed to each setter (\<open>None\<close> or \<open>False\<close> while the setter has
  not been called; the defaults are in headers outside the command's file).
\<close>

record linear_registration =
  lin_init_type :: "init_type option"
  lin_scale_factor :: "real list option"
  lin_max_iter :: "int list option"
  lin_global_search :: "bool option"
  lin_gradient_descent_repetitions :: "int list option"
  lin_loop_density :: "real list option"
  lin_robust_estimate :: "bool option"
  lin_directions :: bool
  lin_extent :: "nat list option"

definition Linear_new :: linear_registration where
  "Linear_new =
     \<lparr>lin_init_type = None, lin_scale_factor = None, lin_max_iter = None,
      lin_global_search = None, lin_gradient_descent_repetitions = None,
      lin_loop_density = None, lin_robust_estimate = None, lin_directions = False,
      lin_extent = None\<rparr>"

record syn_registration_type =
  syn_initialised :: bool
  syn_scale_factor :: "real list option"
  syn_max_iter :: "int list option"
  syn_update_smoothing :: "real option"
  syn_disp_smoothing :: "real option"
  syn_init_grad_step :: "real option"
  syn_aPSF_directions :: bool

definition SyN_new :: syn_registration_type where
  "SyN_new =
     \<lparr>syn_initialised = False, syn_scale_factor = None, syn_max_iter = None,
      syn_update_smoothing = None, syn_disp_smoothing = None, syn_init_grad_step = None,
      syn_aPSF_directions = False\<rparr>"

datatype output_call =
    Compose_halfway_transforms
  | Compose_linear_displacement transform_type
  | Filter_warp
  | Filter_reslice transform_type
  | Reorient transform_type
  | Reorient_warp
  | Threaded_copy
  | Write_transformed_images stage base

text \<open>
  \<open>Run_masked st reg m t t'\<close> is the call \<^verbatim>\<open>run_masked (metric, transform, ...)\<close> on the
  rigid or affine registration object \<open>reg\<close>, with the transform \<open>t\<close> as passed in and
  \<open>t'\<close> as the optimisation left it; \<open>Syn_run reg t\<close> is
  \<^verbatim>\<open>syn_registration.run (t, ...)\<close>.
\<close>

datatype event =
    WARN string
  | Image_create string
  | Run_masked stage linear_registration metric base base
  | Syn_run syn_registration_type base
  | Get_output_warps
  | Save_transform transform_type string
  | Output output_call

text \<open>
  The command line as the option parser hands it over (\<open>None\<close> or \<open>False\<close>: option not
  given), with what is read from the files it names: the two image headers, a loaded
  initial transform, the number of dimensions of the image given to \<^verbatim>\<open>-syn_init\<close>, and
  parsed number lists.
\<close>

record cmdline =
  im1_ndim :: nat
  im2_ndim :: nat
  im1_size3 :: nat
  im2_size3 :: nat
  opt_noreorientation :: bool
  opt_lmax :: "int option"
  opt_transformed :: "string option"
  opt_transformed_midway :: "(string \<times> string) option"
  opt_type :: "int option"
  opt_rigid :: "string option"
  opt_rigid_init :: "transform_type option"
  opt_rigid_centre :: "int option"
  opt_rigid_scale :: "real list option"
  opt_rigid_niter :: "int list option"
  opt_rigid_metric :: "int option"
  opt_rigid_global_search :: bool
  opt_affine :: "string option"
  opt_affine_1tomidway :: "string option"
  opt_affine_2tomidway :: "string option"
  opt_affine_init :: "transform_type option"
  opt_affine_centre :: "int option"
  opt_affine_scale :: "real list option"
  opt_affine_repetitions :: "int list option"
  opt_affine_loop_density :: "real list option"
  opt_affine_metric :: "int option"
  opt_affine_robust_estimator :: "int option"
  opt_affine_robust_median :: bool
  opt_affine_global_search :: bool
  opt_affine_niter :: "int list option"
  opt_syn_warp :: "string option"
  opt_syn_init :: "nat option"
  opt_syn_scale :: "real list option"
  opt_syn_niter :: "int list option"
  opt_syn_update_smooth :: "real option"
  opt_syn_disp_smooth :: "real option"
  opt_syn_grad_step :: "real option"

text \<open>
  What \<^verbatim>\<open>run\<close> takes from code that is not in the command's file: the Eigen functions
  of the transform class; the outcome of the floating-point test
  \<^verbatim>\<open>!(val - (int)val)\<close> on the number of volumes; \<^verbatim>\<open>Math::SH::LforN\<close> and
  \<^verbatim>\<open>Math::SH::NforL\<close>; and the transform that \<^verbatim>\<open>Registration::Linear::run_masked\<close>
  leaves behind, as a function of the registration object, the metric and the transform
  passed in (the images and masks are those of the run).
\<close>

record env =
  eigen :: eigen_lib
  sh_series :: "nat \<Rightarrow> bool"
  LforN :: "nat \<Rightarrow> int"
  NforL :: "int \<Rightarrow> int"
  run_masked_result :: "stage \<Rightarrow> linear_registration \<Rightarrow> metric \<Rightarrow> base \<Rightarrow> base"

text \<open>
  Modelled from the spec: the classes \<^verbatim>\<open>Registration::Transform::Rigid\<close> and
  \<^verbatim>\<open>Registration::Transform::Affine\<close> (\<^verbatim>\<open>rigid.h\<close>, \<^verbatim>\<open>affine.h\<close>) are missing; a fresh
  object of either is the base class with 6 and 12 parameters (the degrees of freedom the
  glossary gives), and they use the accessors and mutators of the base class.
\<close>

definition Rigid_new :: base where
  "Rigid_new = Base 6"

definition Affine_new :: base where
  "Affine_new = Base 12"

record rstate =
  trace :: "event list"
  thrown :: "failure option"
  do_reorientation :: bool
  im1_transformed_valid :: bool
  im1_midway_transformed_path :: string
  im2_midway_transformed_path :: string
  do_rigid :: bool
  do_affine :: bool
  do_syn :: bool
  rigid_registration :: linear_registration
  output_rigid :: bool
  rigid_filename :: string
  rigid :: base
  init_rigid_set :: bool
  rigid_metric :: LinearMetricType
  affine_registration :: linear_registration
  output_affine :: bool
  affine_filename :: string
  output_affine_1tomid :: bool
  affine_1tomid_filename :: string
  output_affine_2tomid :: bool
  affine_2tomid_filename :: string
  affine :: base
  init_affine_set :: bool
  affine_metric :: LinearMetricType
  affine_estimator :: LinearRobustMetricEstimatorType
  syn_registration :: syn_registration_type
  warp_filename :: string
  syn_init :: bool

text \<open>Every local variable at the value its declaration gives it.\<close>

definition initial_state :: rstate where
  "initial_state =
     \<lparr>trace = [], thrown = None,
      do_reorientation = True,
      im1_transformed_valid = False,
      im1_midway_transformed_path = [], im2_midway_transformed_path = [],
      do_rigid = False, do_affine = False, do_syn = False,
      rigid_registration = Linear_new,
      output_rigid = False, rigid_filename = [],
      rigid = Rigid_new, init_rigid_set = False, rigid_metric = Diff,
      affine_registration = Linear_new,
      output_affine = False, affine_filename = [],
      output_affine_1tomid = False, affine_1tomid_filename = [],
      output_affine_2tomid = False, affine_2tomid_filename = [],
      affine = Affine_new, init_affine_set = False, affine_metric = Diff,
      affine_estimator = None_estimator,
      syn_registration = SyN_new,
      warp_filename = [], syn_init = False\<rparr>"

definition throw :: "string \<Rightarrow> rstate \<Rightarrow> rstate" where
  "throw msg s = s\<lparr>thrown := Some (Exception msg)\<rparr>"

definition emit :: "event \<Rightarrow> rstate \<Rightarrow> rstate" where
  "emit e s = s\<lparr>trace := trace s @ [e]\<rparr>"

text \<open>Statements in sequence: nothing runs once a failure is pending.\<close>

fun seq :: "(rstate \<Rightarrow> rstate) list \<Rightarrow> rstate \<Rightarrow> rstate" where
  "seq [] s = s"
| "seq (h # hs) s = (if thrown s = None then seq hs (h s) else s)"


subsection \<open>Input images, outputs and the registration type (lines 135 to 251)\<close>

definition check_dimensions :: "cmdline \<Rightarrow> rstate \<Rightarrow> rstate" where
  "check_dimensions c s =
     (if im1_ndim c \<noteq> im2_ndim c
      then throw ''input images do not have the same number of dimensions'' s
      else s)"

definition handle_noreorientation :: "cmdline \<Rightarrow> rstate \<Rightarrow> rstate" where
  "handle_noreorientation c s =
     (if opt_noreorientation c then s\<lparr>do_reorientation := False\<rparr> else s)"

definition load_images :: "env \<Rightarrow> cmdline \<Rightarrow> rstate \<Rightarrow> rstate" where
  "load_images E c s =
     (if im2_ndim c > 4 then throw ''image dimensions larger than 4 are not supported'' s
      else if im2_ndim c = 4 then
        (if im1_size3 c \<noteq> im2_size3 c
         then throw
           ''input images do not have the same number of volumes in the 4th dimension'' s
         else if sh_series E (im2_size3 c) \<and> do_reorientation s \<and> im2_size3 c > 1 then
           (let lmax0 = (if LforN E (im2_size3 c) < 4 then LforN E (im2_size3 c) else 4);
                lmax = (case opt_lmax c of None \<Rightarrow> lmax0 | Some l \<Rightarrow> l)
            in if opt_lmax c \<noteq> None \<and> lmax mod 2 \<noteq> 0
               then throw ''the input lmax must be even'' s
               else if NforL E lmax > int (im2_size3 c)
               then throw
                 ''not enough SH coefficients within input image for desired lmax'' s
               else s)
         else s\<lparr>do_reorientation := False\<rparr>)
      else s\<lparr>do_reorientation := False\<rparr>)"

definition handle_transformed :: "cmdline \<Rightarrow> rstate \<Rightarrow> rstate" where
  "handle_transformed c s =
     (case opt_transformed c of
        None \<Rightarrow> s
      | Some path \<Rightarrow> emit (Image_create path) (s\<lparr>im1_transformed_valid := True\<rparr>))"

definition handle_transformed_midway :: "cmdline \<Rightarrow> rstate \<Rightarrow> rstate" where
  "handle_transformed_midway c s =
     (case opt_transformed_midway c of
        None \<Rightarrow> s
      | Some (path1, path2) \<Rightarrow>
          s\<lparr>im1_midway_transformed_path := path1, im2_midway_transformed_path := path2\<rparr>)"

text \<open>
  \<^verbatim>\<open>registration_type\<close> is 5 unless \<^verbatim>\<open>-type\<close> is given; the \<^verbatim>\<open>switch\<close> has a
  \<^verbatim>\<open>default\<close> that selects nothing.
\<close>

definition handle_type :: "cmdline \<Rightarrow> rstate \<Rightarrow> rstate" where
  "handle_type c s =
     (let registration_type = (case opt_type c of None \<Rightarrow> 5 | Some t \<Rightarrow> t) in
      if registration_type = 0 then s\<lparr>do_rigid := True\<rparr>
      else if registration_type = 1 then s\<lparr>do_affine := True\<rparr>
      else if registration_type = 2 then s\<lparr>do_syn := True\<rparr>
      else if registration_type = 3 then s\<lparr>do_rigid := True, do_affine := True\<rparr>
      else if registration_type = 4 then s\<lparr>do_rigid := True, do_syn := True\<rparr>
      else if registration_type = 5 then s\<lparr>do_affine := True, do_syn := True\<rparr>
      else if registration_type = 6
      then s\<lparr>do_rigid := True, do_affine := True, do_syn := True\<rparr>
      else s)"

definition input_program :: "env \<Rightarrow> cmdline \<Rightarrow> (rstate \<Rightarrow> rstate) list" where
  "input_program E c =
     [check_dimensions c, handle_noreorientation c, load_images E c,
      handle_transformed c, handle_transformed_midway c, handle_type c]"


subsection \<open>Rigid registration options (lines 265 to 341)\<close>

text \<open>Updating one of the registration objects in place.\<close>

definition on_rigid_registration ::
  "(linear_registration \<Rightarrow> linear_registration) \<Rightarrow> rstate \<Rightarrow> rstate" where
  "on_rigid_registration f s = s\<lparr>rigid_registration := f (rigid_registration s)\<rparr>"

definition on_affine_registration ::
  "(linear_registration \<Rightarrow> linear_registration) \<Rightarrow> rstate \<Rightarrow> rstate" where
  "on_affine_registration f s = s\<lparr>affine_registration := f (affine_registration s)\<rparr>"

definition on_syn_registration ::
  "(syn_registration_type \<Rightarrow> syn_registration_type) \<Rightarrow> rstate \<Rightarrow> rstate" where
  "on_syn_registration f s = s\<lparr>syn_registration := f (syn_registration s)\<rparr>"

definition set_init_type :: "init_type \<Rightarrow> linear_registration \<Rightarrow> linear_registration" where
  "set_init_type i reg = reg\<lparr>lin_init_type := Some i\<rparr>"

definition handle_rigid :: "cmdline \<Rightarrow> rstate \<Rightarrow> rstate" where
  "handle_rigid c s =
     (case opt_rigid c of
        None \<Rightarrow> s
      | Some filename \<Rightarrow>
          if \<not> do_rigid s
          then throw
            ''rigid transformation output requested when no rigid registration is requested'' s
          else s\<lparr>output_rigid := True, rigid_filename := filename\<rparr>)"

definition handle_rigid_init :: "env \<Rightarrow> cmdline \<Rightarrow> rstate \<Rightarrow> rstate" where
  "handle_rigid_init E c s =
     (case opt_rigid_init c of
        None \<Rightarrow> s
      | Some rigid_transform \<Rightarrow>
          (case set_transform (eigen E) rigid_transform (rigid s) of
             Inl failed \<Rightarrow> s\<lparr>init_rigid_set := True, thrown := Some failed\<rparr>
           | Inr r \<Rightarrow>
               on_rigid_registration (set_init_type Init_none)
                 (s\<lparr>init_rigid_set := True, rigid := r\<rparr>)))"

definition handle_rigid_centre :: "cmdline \<Rightarrow> rstate \<Rightarrow> rstate" where
  "handle_rigid_centre c s =
     (case opt_rigid_centre c of
        None \<Rightarrow> s
      | Some choice \<Rightarrow>
          if init_rigid_set s
          then throw ''options -rigid_init and -rigid_centre are mutually exclusive'' s
          else if choice = 0 then on_rigid_registration (set_init_type Init_mass) s
          else if choice = 1 then on_rigid_registration (set_init_type Init_geometric) s
          else if choice = 2 then on_rigid_registration (set_init_type Init_moments) s
          else if choice = 3 then on_rigid_registration (set_init_type Init_none) s
          else s)"

definition handle_rigid_scale :: "cmdline \<Rightarrow> rstate \<Rightarrow> rstate" where
  "handle_rigid_scale c s =
     (case opt_rigid_scale c of
        None \<Rightarrow> s
      | Some factors \<Rightarrow>
          if \<not> do_rigid s
          then throw
            ''the rigid multi-resolution scale factors were input when no rigid registration is requested'' s
          else on_rigid_registration (\<lambda>reg. reg\<lparr>lin_scale_factor := Some factors\<rparr>) s)"

definition handle_rigid_niter :: "cmdline \<Rightarrow> rstate \<Rightarrow> rstate" where
  "handle_rigid_niter c s =
     (case opt_rigid_niter c of
        None \<Rightarrow> s
      | Some iters \<Rightarrow>
          if \<not> do_rigid s
          then throw
            ''the number of rigid iterations have been input when no rigid registration is requested'' s
          else on_rigid_registration (\<lambda>reg. reg\<lparr>lin_max_iter := Some iters\<rparr>) s)"

definition handle_rigid_metric :: "cmdline \<Rightarrow> rstate \<Rightarrow> rstate" where
  "handle_rigid_metric c s =
     (case opt_rigid_metric c of
        None \<Rightarrow> s
      | Some choice \<Rightarrow>
          if choice = 0 then s\<lparr>rigid_metric := Diff\<rparr>
          else if choice = 1 then s\<lparr>rigid_metric := NCC\<rparr>
          else s)"

definition handle_rigid_global_search :: "cmdline \<Rightarrow> rstate \<Rightarrow> rstate" where
  "handle_rigid_global_search c s =
     (if opt_rigid_global_search c
      then on_rigid_registration (\<lambda>reg. reg\<lparr>lin_global_search := Some True\<rparr>) s
      else s)"

definition rigid_options :: "env \<Rightarrow> cmdline \<Rightarrow> (rstate \<Rightarrow> rstate) list" where
  "rigid_options E c =
     [handle_rigid c, handle_rigid_init E c, handle_rigid_centre c, handle_rigid_scale c,
      handle_rigid_niter c, handle_rigid_metric c, handle_rigid_global_search c]"


subsection \<open>Affine registration options (lines 343 to 478)\<close>

definition handle_affine :: "cmdline \<Rightarrow> rstate \<Rightarrow> rstate" where
  "handle_affine c s =
     (case opt_affine c of
        None \<Rightarrow> s
      | Some filename \<Rightarrow>
          if \<not> do_affine s
          then throw
            ''affine transformation output requested when no affine registration is requested'' s
          else s\<lparr>output_affine := True, affine_filename := filename\<rparr>)"

definition handle_affine_1tomidway :: "cmdline \<Rightarrow> rstate \<Rightarrow> rstate" where
  "handle_affine_1tomidway c s =
     (case opt_affine_1tomidway c of
        None \<Rightarrow> s
      | Some filename \<Rightarrow>
          if \<not> do_affine s
          then throw
            ''midway affine transformation output requested when no affine registration is requested'' s
          else s\<lparr>output_affine_1tomid := True, affine_1tomid_filename := filename\<rparr>)"

definition handle_affine_2tomidway :: "cmdline \<Rightarrow> rstate \<Rightarrow> rstate" where
  "handle_affine_2tomidway c s =
     (case opt_affine_2tomidway c of
        None \<Rightarrow> s
      | Some filename \<Rightarrow>
          if \<not> do_affine s
          then throw
            ''midway affine transformation output requested when no affine registration is requested'' s
          else s\<lparr>output_affine_2tomid := True, affine_2tomid_filename := filename\<rparr>)"

definition handle_affine_init :: "env \<Rightarrow> cmdline \<Rightarrow> rstate \<Rightarrow> rstate" where
  "handle_affine_init E c s =
     (case opt_affine_init c of
        None \<Rightarrow> s
      | Some init_affine \<Rightarrow>
          if init_rigid_set s
          then throw
            ''you cannot initialise registrations with both a rigid and affine transformation'' s
          else if do_rigid s
          then throw
            ''you cannot initialise with -affine_init since a rigid registration is being performed'' s
          else
            (case set_transform (eigen E) init_affine (affine s) of
               Inl failed \<Rightarrow> s\<lparr>init_affine_set := True, thrown := Some failed\<rparr>
             | Inr a \<Rightarrow>
                 on_affine_registration (set_init_type Init_none)
                   (s\<lparr>init_affine_set := True, affine := a\<rparr>)))"

definition handle_affine_centre :: "cmdline \<Rightarrow> rstate \<Rightarrow> rstate" where
  "handle_affine_centre c s =
     (case opt_affine_centre c of
        None \<Rightarrow> s
      | Some choice \<Rightarrow>
          if init_affine_set s
          then throw ''options -affine_init and -affine_centre are mutually exclusive'' s
          else if choice = 0 then on_affine_registration (set_init_type Init_mass) s
          else if choice = 1 then on_affine_registration (set_init_type Init_geometric) s
          else if choice = 2 then on_affine_registration (set_init_type Init_moments) s
          else if choice = 3 then on_affine_registration (set_init_type Init_none) s
          else s)"

definition handle_affine_scale :: "cmdline \<Rightarrow> rstate \<Rightarrow> rstate" where
  "handle_affine_scale c s =
     (case opt_affine_scale c of
        None \<Rightarrow> s
      | Some factors \<Rightarrow>
          if \<not> do_affine s
          then throw
            ''the affine multi-resolution scale factors were input when no affine registration is requested'' s
          else on_affine_registration (\<lambda>reg. reg\<lparr>lin_scale_factor := Some factors\<rparr>) s)"

definition handle_affine_repetitions :: "cmdline \<Rightarrow> rstate \<Rightarrow> rstate" where
  "handle_affine_repetitions c s =
     (case opt_affine_repetitions c of
        None \<Rightarrow> s
      | Some reps \<Rightarrow>
          if \<not> do_affine s
          then throw
            ''the affine repetition factors were input when no affine registration is requested'' s
          else on_affine_registration
                 (\<lambda>reg. reg\<lparr>lin_gradient_descent_repetitions := Some reps\<rparr>) s)"

definition handle_affine_loop_density :: "cmdline \<Rightarrow> rstate \<Rightarrow> rstate" where
  "handle_affine_loop_density c s =
     (case opt_affine_loop_density c of
        None \<Rightarrow> s
      | Some density \<Rightarrow>
          if \<not> do_affine s
          then throw
            ''the affine sparsity factor was input when no affine registration is requested'' s
          else on_affine_registration (\<lambda>reg. reg\<lparr>lin_loop_density := Some density\<rparr>) s)"

definition handle_affine_metric :: "cmdline \<Rightarrow> rstate \<Rightarrow> rstate" where
  "handle_affine_metric c s =
     (case opt_affine_metric c of
        None \<Rightarrow> s
      | Some choice \<Rightarrow>
          if choice = 0 then s\<lparr>affine_metric := Diff\<rparr>
          else if choice = 1 then s\<lparr>affine_metric := NCC\<rparr>
          else s)"

definition handle_affine_robust_estimator :: "cmdline \<Rightarrow> rstate \<Rightarrow> rstate" where
  "handle_affine_robust_estimator c s =
     (case opt_affine_robust_estimator c of
        None \<Rightarrow> s
      | Some choice \<Rightarrow>
          if choice = 0 then s\<lparr>affine_estimator := L1\<rparr>
          else if choice = 1 then s\<lparr>affine_estimator := L2\<rparr>
          else if choice = 2 then s\<lparr>affine_estimator := LP\<rparr>
          else s)"

definition handle_affine_robust_median :: "cmdline \<Rightarrow> rstate \<Rightarrow> rstate" where
  "handle_affine_robust_median c s =
     on_affine_registration
       (\<lambda>reg. reg\<lparr>lin_robust_estimate := Some (opt_affine_robust_median c)\<rparr>) s"

definition handle_affine_global_search :: "cmdline \<Rightarrow> rstate \<Rightarrow> rstate" where
  "handle_affine_global_search c s =
     (if opt_affine_global_search c
      then on_affine_registration (\<lambda>reg. reg\<lparr>lin_global_search := Some True\<rparr>) s
      else s)"

definition handle_affine_niter :: "cmdline \<Rightarrow> rstate \<Rightarrow> rstate" where
  "handle_affine_niter c s =
     (case opt_affine_niter c of
        None \<Rightarrow> s
      | Some iters \<Rightarrow>
          if \<not> do_affine s
          then throw
            ''the number of affine iterations have been input when no affine registration is requested'' s
          else on_affine_registration (\<lambda>reg. reg\<lparr>lin_max_iter := Some iters\<rparr>) s)"

definition affine_options :: "env \<Rightarrow> cmdline \<Rightarrow> (rstate \<Rightarrow> rstate) list" where
  "affine_options E c =
     [handle_affine c, handle_affine_1tomidway c, handle_affine_2tomidway c,
      handle_affine_init E c, handle_affine_centre c, handle_affine_scale c,
      handle_affine_repetitions c, handle_affine_loop_density c, handle_affine_metric c,
      handle_affine_robust_estimator c, handle_affine_robust_median c,
      handle_affine_global_search c, handle_affine_niter c]"


subsection \<open>SyN registration options (lines 481 to 564)\<close>

definition handle_syn_warp :: "cmdline \<Rightarrow> rstate \<Rightarrow> rstate" where
  "handle_syn_warp c s =
     (case opt_syn_warp c of
        None \<Rightarrow> s
      | Some filename \<Rightarrow>
          if \<not> do_syn s
          then throw ''Syn warp output requested when no SyN registration is requested'' s
          else s\<lparr>warp_filename := filename\<rparr>)"

definition warn_affine_superseded :: "rstate \<Rightarrow> rstate" where
  "warn_affine_superseded s =
     (if do_affine s
      then (emit (WARN
        ''no affine registration will be performed when initialising with syn non-linear warps'')
        s)\<lparr>do_affine := False\<rparr>
      else s)"

definition warn_rigid_superseded :: "rstate \<Rightarrow> rstate" where
  "warn_rigid_superseded s =
     (if do_rigid s
      then (emit (WARN
        ''no rigid registration will be performed when initialising with syn non-linear warps'')
        s)\<lparr>do_rigid := False\<rparr>
      else s)"

definition warn_affine_init_ignored :: "rstate \<Rightarrow> rstate" where
  "warn_affine_init_ignored s =
     (if init_affine_set s
      then emit (WARN
        ''-affine_init has no effect since the syn init warp also contains the linear transform in the image header'')
        s
      else s)"

definition warn_rigid_init_ignored :: "rstate \<Rightarrow> rstate" where
  "warn_rigid_init_ignored s =
     (if init_rigid_set s
      then emit (WARN
        ''-rigid_init has no effect since the syn init warp also contains the linear transform in the image header'')
        s
      else s)"

definition handle_syn_init :: "cmdline \<Rightarrow> rstate \<Rightarrow> rstate" where
  "handle_syn_init c s =
     (case opt_syn_init c of
        None \<Rightarrow> s
      | Some input_warps_ndim \<Rightarrow>
          (let s1 = s\<lparr>syn_init := True\<rparr> in
           if \<not> do_syn s1
           then throw
             ''the syn initialisation input when no syn registration is requested'' s1
           else if input_warps_ndim \<noteq> 5
           then throw
             ''syn initialisation input is not 5D. Input must be from previous syn output'' s1
           else
             warn_rigid_init_ignored (warn_affine_init_ignored
               (warn_rigid_superseded (warn_affine_superseded
                  (on_syn_registration (\<lambda>reg. reg\<lparr>syn_initialised := True\<rparr>) s1))))))"

definition handle_syn_scale :: "cmdline \<Rightarrow> rstate \<Rightarrow> rstate" where
  "handle_syn_scale c s =
     (case opt_syn_scale c of
        None \<Rightarrow> s
      | Some scale_factors \<Rightarrow>
          if \<not> do_syn s
          then throw
            ''the syn multi-resolution scale factors were input when no syn registration is requested'' s
          else if syn_init s \<and> length scale_factors > 1
          then emit (WARN
            ''-syn_scale option ignored since only the full resolution will be performed when initialising with syn warp'')
            s
          else on_syn_registration (\<lambda>reg. reg\<lparr>syn_scale_factor := Some scale_factors\<rparr>) s)"

definition handle_syn_niter :: "cmdline \<Rightarrow> rstate \<Rightarrow> rstate" where
  "handle_syn_niter c s =
     (case opt_syn_niter c of
        None \<Rightarrow> s
      | Some iterations_per_level \<Rightarrow>
          if \<not> do_syn s
          then throw
            ''the number of syn iterations have been input when no SyN registration is requested'' s
          else if syn_init s \<and> length iterations_per_level > 1
          then throw
            ''when initialising the syn registration the max number of iterations can only be defined for a single level'' s
          else on_syn_registration
                 (\<lambda>reg. reg\<lparr>syn_max_iter := Some iterations_per_level\<rparr>) s)"

definition handle_syn_update_smooth :: "cmdline \<Rightarrow> rstate \<Rightarrow> rstate" where
  "handle_syn_update_smooth c s =
     (case opt_syn_update_smooth c of
        None \<Rightarrow> s
      | Some v \<Rightarrow>
          if \<not> do_syn s
          then throw
            ''the warp update field smoothing parameter was input when no SyN registration is requested'' s
          else on_syn_registration (\<lambda>reg. reg\<lparr>syn_update_smoothing := Some v\<rparr>) s)"

definition handle_syn_disp_smooth :: "cmdline \<Rightarrow> rstate \<Rightarrow> rstate" where
  "handle_syn_disp_smooth c s =
     (case opt_syn_disp_smooth c of
        None \<Rightarrow> s
      | Some v \<Rightarrow>
          if \<not> do_syn s
          then throw
            ''the displacement field smoothing parameter was input when no SyN registration is requested'' s
          else on_syn_registration (\<lambda>reg. reg\<lparr>syn_disp_smoothing := Some v\<rparr>) s)"

definition handle_syn_grad_step :: "cmdline \<Rightarrow> rstate \<Rightarrow> rstate" where
  "handle_syn_grad_step c s =
     (case opt_syn_grad_step c of
        None \<Rightarrow> s
      | Some v \<Rightarrow>
          if \<not> do_syn s
          then throw
            ''the initial gradient step size was input when no SyN registration is requested'' s
          else on_syn_registration (\<lambda>reg. reg\<lparr>syn_init_grad_step := Some v\<rparr>) s)"

definition options_before_syn_init :: "env \<Rightarrow> cmdline \<Rightarrow> (rstate \<Rightarrow> rstate) list" where
  "options_before_syn_init E c =
     input_program E c @ rigid_options E c @ affine_options E c @ [handle_syn_warp c]"

definition options_after_syn_init :: "cmdline \<Rightarrow> (rstate \<Rightarrow> rstate) list" where
  "options_after_syn_init c =
     [handle_syn_scale c, handle_syn_niter c, handle_syn_update_smooth c,
      handle_syn_disp_smooth c, handle_syn_grad_step c]"

definition options :: "env \<Rightarrow> cmdline \<Rightarrow> (rstate \<Rightarrow> rstate) list" where
  "options E c =
     options_before_syn_init E c @ [handle_syn_init c] @ options_after_syn_init c"


subsection \<open>Running the registrations (lines 567 to 688)\<close>

text \<open>
  \<^verbatim>\<open>im1_image.ndim()\<close> and \<^verbatim>\<open>im2_image.ndim()\<close> are those of the headers: \<^verbatim>\<open>load_image\<close>
  changes the number of volumes only. The metric and estimator variables only ever hold
  the enumeration values assigned in the option section, so the two \<^verbatim>\<open>FIXME\<close> branches
  of the affine dispatch cannot be reached and have no counterpart here.
\<close>

definition rigid_run_masked :: "env \<Rightarrow> metric \<Rightarrow> rstate \<Rightarrow> rstate" where
  "rigid_run_masked E m s =
     (let r = run_masked_result E Rigid (rigid_registration s) m (rigid s)
      in (emit (Run_masked Rigid (rigid_registration s) m (rigid s) r) s)\<lparr>rigid := r\<rparr>)"

definition rigid_dispatch :: "env \<Rightarrow> cmdline \<Rightarrow> rstate \<Rightarrow> rstate" where
  "rigid_dispatch E c s =
     (if im2_ndim c = 4 then
        (if rigid_metric s = NCC
         then throw
           ''cross correlation metric not implemented for data with more than 3 dimensions'' s
         else rigid_run_masked E MeanSquared4D s)
      else if rigid_metric s = NCC
      then rigid_run_masked E CrossCorrelation
             (on_rigid_registration (\<lambda>reg. reg\<lparr>lin_extent := Some [3, 3, 3]\<rparr>) s)
      else rigid_run_masked E MeanSquared s)"

definition save_rigid :: "rstate \<Rightarrow> rstate" where
  "save_rigid s =
     (if output_rigid s
      then emit (Save_transform (get_transform (rigid s)) (rigid_filename s)) s
      else s)"

definition run_rigid_registration :: "env \<Rightarrow> cmdline \<Rightarrow> rstate \<Rightarrow> rstate" where
  "run_rigid_registration E c s =
     (if do_rigid s then seq [rigid_dispatch E c, save_rigid] s else s)"

text \<open>
  Lines 598 to 600: the centre, the translation and the matrix of the rigid transform
  are handed to the three mutators of the affine transform, in this order.
\<close>

definition seed_from :: "eigen_lib \<Rightarrow> base \<Rightarrow> base \<Rightarrow> failure + base" where
  "seed_from L r a =
     (case set_centre L (get_centre r) a of
        Inl failed \<Rightarrow> Inl failed
      | Inr a1 \<Rightarrow>
          (case set_translation L (get_translation r) a1 of
             Inl failed \<Rightarrow> Inl failed
           | Inr a2 \<Rightarrow> set_matrix L (get_matrix r) a2))"

definition seed_affine_from_rigid :: "env \<Rightarrow> rstate \<Rightarrow> rstate" where
  "seed_affine_from_rigid E s =
     (if do_rigid s then
        (case seed_from (eigen E) (rigid s) (affine s) of
           Inl failed \<Rightarrow> s\<lparr>thrown := Some failed\<rparr>
         | Inr a \<Rightarrow> on_affine_registration (set_init_type Init_none) (s\<lparr>affine := a\<rparr>))
      else s)"

definition affine_directions :: "rstate \<Rightarrow> rstate" where
  "affine_directions s =
     (if do_reorientation s
      then on_affine_registration (\<lambda>reg. reg\<lparr>lin_directions := True\<rparr>) s
      else s)"

definition affine_run_masked :: "env \<Rightarrow> metric \<Rightarrow> rstate \<Rightarrow> rstate" where
  "affine_run_masked E m s =
     (let a = run_masked_result E Affine (affine_registration s) m (affine s)
      in (emit (Run_masked Affine (affine_registration s) m (affine s) a) s)\<lparr>affine := a\<rparr>)"

definition affine_dispatch :: "env \<Rightarrow> cmdline \<Rightarrow> rstate \<Rightarrow> rstate" where
  "affine_dispatch E c s =
     (if im2_ndim c = 4 then
        (if affine_metric s = NCC
         then throw
           ''cross correlation metric not implemented for data with more than 3 dimensions'' s
         else
           (case affine_estimator s of
              None_estimator \<Rightarrow> affine_run_masked E MeanSquared4D s
            | estimator \<Rightarrow> affine_run_masked E (DifferenceRobust4D estimator) s))
      else if affine_metric s = NCC
      then affine_run_masked E CrossCorrelation
             (on_affine_registration (\<lambda>reg. reg\<lparr>lin_extent := Some [3, 3, 3]\<rparr>) s)
      else
        (case affine_estimator s of
           None_estimator \<Rightarrow> affine_run_masked E MeanSquared s
         | estimator \<Rightarrow> affine_run_masked E (DifferenceRobust estimator) s))"

definition save_affine :: "rstate \<Rightarrow> rstate" where
  "save_affine s =
     (let s1 = (if output_affine s
                then emit (Save_transform (get_transform (affine s)) (affine_filename s)) s
                else s);
          s2 = (if output_affine_1tomid s
                then emit (Save_transform (get_transform_half (affine s))
                             (affine_1tomid_filename s)) s1
                else s1)
      in if output_affine_2tomid s
         then emit (Save_transform (get_transform_half_inverse (affine s))
                      (affine_2tomid_filename s)) s2
         else s2)"

definition run_affine_registration :: "env \<Rightarrow> cmdline \<Rightarrow> rstate \<Rightarrow> rstate" where
  "run_affine_registration E c s =
     (if do_affine s
      then seq [seed_affine_from_rigid E, affine_directions, affine_dispatch E c, save_affine] s
      else s)"

definition syn_directions :: "rstate \<Rightarrow> rstate" where
  "syn_directions s =
     (if do_reorientation s
      then on_syn_registration (\<lambda>reg. reg\<lparr>syn_aPSF_directions := True\<rparr>) s
      else s)"

definition syn_run :: "rstate \<Rightarrow> rstate" where
  "syn_run s =
     (if do_affine s then emit (Syn_run (syn_registration s) (affine s)) s
      else if do_rigid s then emit (Syn_run (syn_registration s) (rigid s)) s
      else (let identity_transform = Affine_new
            in emit (Syn_run (syn_registration s) identity_transform) s))"

definition syn_output_warps :: "rstate \<Rightarrow> rstate" where
  "syn_output_warps s =
     (if warp_filename s \<noteq> []
      then emit Get_output_warps (emit (Image_create (warp_filename s)) s)
      else s)"

definition run_syn_registration :: "rstate \<Rightarrow> rstate" where
  "run_syn_registration s =
     (if do_syn s then seq [syn_directions, syn_run, syn_output_warps] s else s)"

definition registration :: "env \<Rightarrow> cmdline \<Rightarrow> (rstate \<Rightarrow> rstate) list" where
  "registration E c =
     [run_rigid_registration E c, run_affine_registration E c, run_syn_registration]"


subsection \<open>Writing the transformed images (lines 692 to 773)\<close>

definition warp_image :: "nat \<Rightarrow> rstate \<Rightarrow> rstate" where
  "warp_image ndim s =
     (if ndim = 3 then emit (Output Filter_warp) s
      else
        (let s1 = emit (Output Filter_warp) s;
             s2 = (if do_reorientation s then emit (Output Reorient_warp) s1 else s1)
         in emit (Output Threaded_copy) s2))"

definition reslice_image :: "transform_type \<Rightarrow> rstate \<Rightarrow> rstate" where
  "reslice_image T s =
     (let s1 = emit (Output (Filter_reslice T)) s
      in if do_reorientation s then emit (Output (Reorient T)) s1 else s1)"

definition output_transformed :: "cmdline \<Rightarrow> rstate \<Rightarrow> rstate" where
  "output_transformed c s =
     (if im1_transformed_valid s then
        (if do_syn s
         then warp_image (im1_ndim c) (emit (Output Compose_halfway_transforms) s)
         else if do_affine s then reslice_image (get_transform (affine s)) s
         else reslice_image (get_transform (rigid s)) s)
      else s)"

definition output_midway :: "cmdline \<Rightarrow> rstate \<Rightarrow> rstate" where
  "output_midway c s =
     (if im1_midway_transformed_path s \<noteq> [] \<and> im2_midway_transformed_path s \<noteq> [] then
        (if do_syn s then
           (let s1 = emit (Output (Compose_linear_displacement
                                     (get_transform_half (affine s)))) s;
                s2 = emit (Image_create (im1_midway_transformed_path s)) s1;
                s3 = warp_image (im1_ndim c) s2;
                s4 = emit (Output (Compose_linear_displacement
                                     (get_transform_half_inverse (affine s)))) s3;
                s5 = emit (Image_create (im2_midway_transformed_path s)) s4
            in warp_image (im2_ndim c) s5)
         else if do_affine s
         then emit (Output (Write_transformed_images Affine (affine s))) s
         else emit (Output (Write_transformed_images Rigid (rigid s))) s)
      else s)"

definition outputs :: "cmdline \<Rightarrow> (rstate \<Rightarrow> rstate) list" where
  "outputs c = [output_transformed c, output_midway c]"

definition program :: "env \<Rightarrow> cmdline \<Rightarrow> (rstate \<Rightarrow> rstate) list" where
  "program E c = options E c @ registration E c @ outputs c"

definition run :: "env \<Rightarrow> cmdline \<Rightarrow> rstate" where
  "run E c = seq (program E c) initial_state"

text \<open>The state when every option has been handled, and the state just before \<^verbatim>\<open>-syn_init\<close>.\<close>

definition configured :: "env \<Rightarrow> cmdline \<Rightarrow> rstate" where
  "configured E c = seq (options E c) initial_state"

definition before_syn_init :: "env \<Rightarrow> cmdline \<Rightarrow> rstate" where
  "before_syn_init E c = seq (options_before_syn_init E c) initial_state"


subsection \<open>Reading a trace\<close>

fun is_optimisation :: "event \<Rightarrow> bool" where
  "is_optimisation (Run_masked st reg m t t') = True"
| "is_optimisation (Syn_run reg t) = True"
| "is_optimisation e = False"

fun is_resampling :: "event \<Rightarrow> bool" where
  "is_resampling (Output oc) = True"
| "is_resampling e = False"

definition optimisations :: "event list \<Rightarrow> event list" where
  "optimisations tr = filter is_optimisation tr"

definition resamplings :: "event list \<Rightarrow> event list" where
  "resamplings tr = filter is_resampling tr"

text \<open>
  The rank of a registration in the order rigid, affine, SyN; the registrations of one
  linear stage in a trace, each with its registration object, the transform passed in and
  the transform left behind; and the transforms handed to the SyN registration.
\<close>

fun rank :: "event \<Rightarrow> nat" where
  "rank (Run_masked Rigid reg m t t') = 0"
| "rank (Run_masked Affine reg m t t') = 1"
| "rank e = 2"

fun linear_runs :: "stage \<Rightarrow> event list \<Rightarrow> (linear_registration \<times> base \<times> base) list" where
  "linear_runs st [] = []"
| "linear_runs st (Run_masked st' reg m t t' # es) =
     (if st' = st then (reg, t, t') # linear_runs st es else linear_runs st es)"
| "linear_runs st (e # es) = linear_runs st es"

fun syn_runs :: "event list \<Rightarrow> base list" where
  "syn_runs [] = []"
| "syn_runs (Syn_run reg t # es) = t # syn_runs es"
| "syn_runs (e # es) = syn_runs es"

text \<open>The state just after \<^verbatim>\<open>-syn_init\<close> has been handled.\<close>

definition after_syn_init :: "env \<Rightarrow> cmdline \<Rightarrow> rstate" where
  "after_syn_init E c = seq (options_before_syn_init E c @ [handle_syn_init c]) initial_state"


section \<open>Predicates of the claims and example inputs\<close>

text \<open>
  The two invariants of the half transforms, as the assertions at the end of
  \<^verbatim>\<open>compute_halfspace_transformations\<close> state them; and what it means that the half and
  half-inverse transforms of a state are the ones computed from its full transform.
\<close>

definition halfspace_invariant :: "eigen_lib \<Rightarrow> base \<Rightarrow> bool" where
  "halfspace_invariant L s =
     (isApprox34 L (trafo s) (trafo_mult (trafo_half s) (trafo_half s)) \<and>
      (case trafo_inverse (trafo s) of
         None \<Rightarrow> False
       | Some trafo_inv \<Rightarrow>
           isApprox34 L trafo_inv (trafo_mult (trafo_half_inverse s) (trafo_half_inverse s))))"

definition halves_recomputed :: "eigen_lib \<Rightarrow> base \<Rightarrow> bool" where
  "halves_recomputed L s =
     (case mat_sqrt L (homogeneous (trafo s)) of
        None \<Rightarrow> False
      | Some sqrt_tmp \<Rightarrow>
          trafo_half s = block34 sqrt_tmp \<and>
          trafo_inverse (block34 sqrt_tmp) = Some (trafo_half_inverse s))"

text \<open>
  An instance of the library for the examples. The comparison is the one Eigen documents
  for \<^verbatim>\<open>isApprox\<close>, \<open>\<parallel>v - w\<parallel>\<^sup>2 \<le> p\<^sup>2 min (\<parallel>v\<parallel>\<^sup>2) (\<parallel>w\<parallel>\<^sup>2)\<close> over the coefficients, with
  the precision \<open>p\<close> of \<^verbatim>\<open>double\<close>; the square root is a table of exact roots.
\<close>

definition sum_sq :: "real list \<Rightarrow> real" where
  "sum_sq xs = sum_list (map (\<lambda>x. x * x) xs)"

fun coeffs3 :: "mat3 \<Rightarrow> real list" where
  "coeffs3 ((a, b, c), (d, e, f), (g, h, i)) = [a, b, c, d, e, f, g, h, i]"

definition coeffs34 :: "transform_type \<Rightarrow> real list" where
  "coeffs34 A = coeffs3 (linear_part A) @ (case translation A of (x, y, z) \<Rightarrow> [x, y, z])"

definition isApprox_coeffs :: "real \<Rightarrow> real list \<Rightarrow> real list \<Rightarrow> bool" where
  "isApprox_coeffs prec v w =
     (sum_sq (map2 (\<lambda>x y. x - y) v w) \<le> prec * prec * min (sum_sq v) (sum_sq w))"

definition eigen_double :: "(mat4 \<Rightarrow> mat4 option) \<Rightarrow> eigen_lib" where
  "eigen_double sqrt_fn =
     \<lparr>mat_sqrt = sqrt_fn,
      isApprox3 = (\<lambda>a b. isApprox_coeffs (1 / 10 ^ 12) (coeffs3 a) (coeffs3 b)),
      isApprox34 = (\<lambda>a b. isApprox_coeffs (1 / 10 ^ 12) (coeffs34 a) (coeffs34 b))\<rparr>"

definition scaling :: "real \<Rightarrow> vec3 \<Rightarrow> transform_type" where
  "scaling k t = \<lparr>linear_part = ((k, 0, 0), (0, k, 0), (0, 0, k)), translation = t\<rparr>"

definition example_sqrt :: "mat4 \<Rightarrow> mat4 option" where
  "example_sqrt =
     map_of [(homogeneous Identity, homogeneous Identity),
             (homogeneous (scaling 4 (0, 0, 0)), homogeneous (scaling 2 (0, 0, 0))),
             (homogeneous (scaling 4 (-3, 0, 0)), homogeneous (scaling 2 (-1, 0, 0))),
             (homogeneous (scaling 1 (4, 0, 0)), homogeneous (scaling 1 (2, 0, 0)))]"

definition example_eigen :: eigen_lib where
  "example_eigen = eigen_double example_sqrt"

text \<open>
  A transform with centre (1, 0, 0) and otherwise fresh, and a reflection (determinant
  \<open>-1\<close>).
\<close>

definition example_state :: base where
  "example_state = (Base 12)\<lparr>centre := (1, 0, 0)\<rparr>"

definition reflection :: transform_type where
  "reflection = \<lparr>linear_part = ((- 1, 0, 0), (0, 1, 0), (0, 0, 1)), translation = (0, 0, 0)\<rparr>"

text \<open>
  A hypothetical outcome of the rigid stage (a translation by 4 along x about the centre
  (1, 0, 0)), the affine transform seeded from it, and an environment whose rigid stage
  returns that outcome while the affine stage returns its input.
\<close>

definition registered :: base where
  "registered =
     Rigid_new\<lparr>trafo := scaling 1 (4, 0, 0), trafo_half := scaling 1 (2, 0, 0),
               trafo_half_inverse := scaling 1 (- 2, 0, 0), centre := (1, 0, 0)\<rparr>"

definition seeded :: base where
  "seeded =
     Affine_new\<lparr>trafo := scaling 1 (4, 0, 0), trafo_half := scaling 1 (2, 0, 0),
                trafo_half_inverse := scaling 1 (- 2, 0, 0), centre := (1, 0, 0)\<rparr>"

definition example_env :: env where
  "example_env =
     \<lparr>eigen = example_eigen,
      sh_series = (\<lambda>n. False),
      LforN = (\<lambda>n. 0),
      NforL = (\<lambda>l. (l + 1) * (l + 2) div 2),
      run_masked_result = (\<lambda>st reg m t. case st of Rigid \<Rightarrow> registered | Affine \<Rightarrow> t)\<rparr>"

definition plain_cmdline :: cmdline where
  "plain_cmdline =
     \<lparr>im1_ndim = 3, im2_ndim = 3, im1_size3 = 1, im2_size3 = 1,
      opt_noreorientation = False, opt_lmax = None,
      opt_transformed = None, opt_transformed_midway = None, opt_type = None,
      opt_rigid = None, opt_rigid_init = None, opt_rigid_centre = None,
      opt_rigid_scale = None, opt_rigid_niter = None, opt_rigid_metric = None,
      opt_rigid_global_search = False,
      opt_affine = None, opt_affine_1tomidway = None, opt_affine_2tomidway = None,
      opt_affine_init = None, opt_affine_centre = None, opt_affine_scale = None,
      opt_affine_repetitions = None, opt_affine_loop_density = None,
      opt_affine_metric = None, opt_affine_robust_estimator = None,
      opt_affine_robust_median = False, opt_affine_global_search = False,
      opt_affine_niter = None,
      opt_syn_warp = None, opt_syn_init = None, opt_syn_scale = None,
      opt_syn_niter = None, opt_syn_update_smooth = None, opt_syn_disp_smooth = None,
      opt_syn_grad_step = None\<rparr>"

text \<open>The messages the claims are about.\<close>

definition NCC_message :: string where
  "NCC_message =
     ''cross correlation metric not implemented for data with more than 3 dimensions''"

definition syn_init_not_5D_message :: string where
  "syn_init_not_5D_message =
     ''syn initialisation input is not 5D. Input must be from previous syn output''"

definition syn_niter_levels_message :: string where
  "syn_niter_levels_message =
     ''when initialising the syn registration the max number of iterations can only be defined for a single level''"

definition affine_superseded_warning :: string where
  "affine_superseded_warning =
     ''no affine registration will be performed when initialising with syn non-linear warps''"

definition rigid_superseded_warning :: string where
  "rigid_superseded_warning =
     ''no rigid registration will be performed when initialising with syn non-linear warps''"

text \<open>
  Example command lines: \<^verbatim>\<open>mrregister im1 im2\<close> on 3-D images (in \<open>plain_cmdline\<close>
  above), and variations of it; \<open>volumes_4d\<close> makes both images 4-D with two volumes.
\<close>

definition volumes_4d :: "cmdline \<Rightarrow> cmdline" where
  "volumes_4d c = c\<lparr>im1_ndim := 4, im2_ndim := 4, im1_size3 := 2, im2_size3 := 2\<rparr>"

definition rigid_ncc_4d :: cmdline where
  "rigid_ncc_4d = volumes_4d (plain_cmdline\<lparr>opt_type := Some 0, opt_rigid_metric := Some 1\<rparr>)"

definition affine_ncc_4d :: cmdline where
  "affine_ncc_4d = volumes_4d (plain_cmdline\<lparr>opt_type := Some 1, opt_affine_metric := Some 1\<rparr>)"

definition rigid_affine_ncc_4d :: cmdline where
  "rigid_affine_ncc_4d =
     volumes_4d (plain_cmdline\<lparr>opt_type := Some 3, opt_affine_metric := Some 1,
                               opt_transformed := Some ''out.mif''\<rparr>)"

definition resume_4d_bundle :: cmdline where
  "resume_4d_bundle = plain_cmdline\<lparr>opt_type := Some 2, opt_syn_init := Some 4\<rparr>"

definition resume_two_levels :: cmdline where
  "resume_two_levels =
     plain_cmdline\<lparr>opt_type := Some 2, opt_syn_init := Some 5, opt_syn_niter := Some [10, 5]\<rparr>"


definition rigid_with_affine_options :: cmdline where
  "rigid_with_affine_options =
     plain_cmdline\<lparr>opt_type := Some 0, opt_affine_metric := Some 1,
                    opt_affine_robust_estimator := Some 0, opt_affine_centre := Some 0,
                    opt_affine_global_search := True\<rparr>"

definition all_stages :: cmdline where
  "all_stages = plain_cmdline\<lparr>opt_type := Some 6\<rparr>"

text \<open>
  A rotation about the z axis, given by its cosine and sine, and a table of exact roots of
  such rotations: the rotation with cosine \<open>7/25\<close> and sine \<open>24/25\<close> is the square of the
  one with cosine \<open>4/5\<close> and sine \<open>3/5\<close>.
\<close>

definition rotation :: "real \<Rightarrow> real \<Rightarrow> vec3 \<Rightarrow> transform_type" where
  "rotation cs sn t = \<lparr>linear_part = ((cs, - sn, 0), (sn, cs, 0), (0, 0, 1)), translation = t\<rparr>"

definition rotation_sqrt :: "mat4 \<Rightarrow> mat4 option" where
  "rotation_sqrt =
     map_of [(homogeneous Identity, homogeneous Identity),
             (homogeneous (rotation 1 0 (18, - 24, 0)), homogeneous (rotation 1 0 (9, - 12, 0))),
             (homogeneous (rotation (7 / 25) (24 / 25) (18, - 24, 0)),
              homogeneous (rotation (4 / 5) (3 / 5) (5, - 15, 0))),
             (homogeneous (rotation (7 / 25) (24 / 25) (36, - 48, 0)),
              homogeneous (rotation (4 / 5) (3 / 5) (10, - 30, 0)))]"

definition rotation_eigen :: eigen_lib where
  "rotation_eigen = eigen_double rotation_sqrt"

text \<open>
  A hypothetical outcome of the rigid stage: that rotation about the centre (25, 0, 0),
  which leaves the centre where it is. Then the transform that lines 598 to 600 make of
  it, and an environment whose rigid stage returns the rotation while the affine stage
  returns its input; the command line is \<^verbatim>\<open>mrregister im1 im2 -type rigid_affine\<close>.
\<close>

definition turned :: base where
  "turned =
     Rigid_new\<lparr>trafo := rotation (7 / 25) (24 / 25) (18, - 24, 0),
               trafo_half := rotation (4 / 5) (3 / 5) (5, - 15, 0),
               trafo_half_inverse := rotation (4 / 5) (- (3 / 5)) (5, 15, 0),
               centre := (25, 0, 0)\<rparr>"

definition turned_seed :: base where
  "turned_seed =
     Affine_new\<lparr>trafo := rotation (7 / 25) (24 / 25) (36, - 48, 0),
                trafo_half := rotation (4 / 5) (3 / 5) (10, - 30, 0),
                trafo_half_inverse := rotation (4 / 5) (- (3 / 5)) (10, 30, 0),
                centre := (25, 0, 0)\<rparr>"

definition rotating_env :: env where
  "rotating_env =
     example_env\<lparr>eigen := rotation_eigen,
       run_masked_result := (\<lambda>st reg m t. case st of Rigid \<Rightarrow> turned | Affine \<Rightarrow> t)\<rparr>"

definition rigid_then_affine :: cmdline where
  "rigid_then_affine = plain_cmdline\<lparr>opt_type := Some 3\<rparr>"

section \<open>Properties of the transform base class\<close>

lemma foldl_plus_sum_list:
  "foldl (\<lambda>g e. g + e) (g0 :: 'v::monoid_add) es = g0 + sum_list es"
  by (induction es arbitrary: g0) (simp_all add: add.assoc)

text \<open>
  C4. The default \<^verbatim>\<open>robust_estimate\<close> returns the incoming gradient plus the plain
  (unweighted) sum of all gradient estimates, and reports success, for every list of
  estimates.
\<close>

theorem robust_estimate_is_plain_sum:
  fixes gradient :: "'v::monoid_add"
  shows "robust_estimate gradient grad_estimates params parameter_vector =
           (gradient + sum_list grad_estimates, True)"
  by (simp add: robust_estimate_def foldl_plus_sum_list)

lemma trafo_inverse_Identity: "trafo_inverse Identity = Some Identity"
  by (simp add: trafo_inverse_def Identity_def identity3_def)

lemma trafo_mult_Identity: "trafo_mult Identity Identity = Identity"
  by (simp add: trafo_mult_def Identity_def identity3_def)

text \<open>
  C10. A freshly constructed transform, for any number of parameters, has its full, half
  and half-inverse transforms equal to the identity and its centre at the origin; so half
  composed with half is the full transform, half-inverse composed with half-inverse is its
  inverse, both exactly, and \<^verbatim>\<open>get_transform\<close> returns the identity.
\<close>

theorem Base_fresh_is_identity:
  "trafo (Base n) = Identity \<and>
   trafo_half (Base n) = Identity \<and>
   trafo_half_inverse (Base n) = Identity \<and>
   centre (Base n) = (0, 0, 0) \<and>
   trafo_mult (trafo_half (Base n)) (trafo_half (Base n)) = trafo (Base n) \<and>
   Some (trafo_mult (trafo_half_inverse (Base n)) (trafo_half_inverse (Base n)))
     = trafo_inverse (trafo (Base n)) \<and>
   get_transform (Base n) = Identity"
  by (simp add: Base_def get_transform_def trafo_inverse_Identity trafo_mult_Identity)

subsection \<open>What a completed mutation guarantees\<close>

lemma compute_halfspace_Inr:
  assumes "compute_halfspace_transformations L s = Inr s'"
  shows "\<exists>r hi ti. mat_sqrt L (homogeneous (trafo s)) = Some r \<and>
           trafo_inverse (block34 r) = Some hi \<and>
           trafo_inverse (trafo s) = Some ti \<and>
           s' = s\<lparr>trafo_half := block34 r, trafo_half_inverse := hi\<rparr> \<and>
           0 < det4 (homogeneous (trafo s)) \<and>
           isApprox3 L (block33 (homogeneous (trafo s))) (linear_part (trafo s)) \<and>
           isApprox34 L (trafo s) (trafo_mult (block34 r) (block34 r)) \<and>
           isApprox34 L ti (trafo_mult hi hi)"
  using assms unfolding compute_halfspace_transformations_def Let_def
  by (auto split: if_splits option.splits)

lemma compute_halfspace_Inl:
  "compute_halfspace_transformations L b = Inl f \<Longrightarrow> \<exists>e. f = AssertionFailed e"
  unfolding compute_halfspace_transformations_def Let_def
  by (auto split: if_splits option.splits)

lemmas mutator_defs = set_transform_def set_matrix_def set_translation_def set_centre_def
  set_offset_def

lemma mutator_Inl:
  "set_transform L T b = Inl f \<Longrightarrow> \<exists>e. f = AssertionFailed e"
  "set_matrix L M b = Inl f \<Longrightarrow> \<exists>e. f = AssertionFailed e"
  "set_translation L t b = Inl f \<Longrightarrow> \<exists>e. f = AssertionFailed e"
  "set_centre L ce b = Inl f \<Longrightarrow> \<exists>e. f = AssertionFailed e"
  "set_offset L off b = Inl f \<Longrightarrow> \<exists>e. f = AssertionFailed e"
  unfolding mutator_defs by (auto dest: compute_halfspace_Inl)

lemma det4_homogeneous: "det4 (homogeneous A) = det3 (linear_part A)"
  unfolding homogeneous_def by (auto split: prod.splits)

lemma block33_homogeneous: "block33 (homogeneous A) = linear_part A"
  unfolding homogeneous_def by (auto split: prod.splits)

lemma compute_halfspace_rejects:
  assumes "det3 (linear_part (trafo s)) \<le> 0"
  shows "\<exists>e. compute_halfspace_transformations L s = Inl (AssertionFailed e)"
    and "isApprox3 L (linear_part (trafo s)) (linear_part (trafo s)) \<Longrightarrow>
         compute_halfspace_transformations L s =
           Inl (AssertionFailed ''tmp.determinant() > 0'')"
  using assms
  by (simp_all add: compute_halfspace_transformations_def Let_def det4_homogeneous
      block33_homogeneous)

subsection \<open>Exact arithmetic\<close>

lemma mat3_cases:
  obtains a b c d e f g h i where "(M :: mat3) = ((a, b, c), (d, e, f), (g, h, i))"
  by (metis prod_cases3)

lemma det3_mat_mul: "det3 (mat_mul A B) = det3 A * det3 B"
  by (cases A rule: mat3_cases; cases B rule: mat3_cases) (simp add: algebra_simps)

lemma mat_mul_assoc: "mat_mul (mat_mul A B) C = mat_mul A (mat_mul B C)"
  by (cases A rule: mat3_cases; cases B rule: mat3_cases; cases C rule: mat3_cases)
     (simp add: algebra_simps)

lemma mat_vec_mat_mul: "mat_vec (mat_mul A B) v = mat_vec A (mat_vec B v)"
  by (cases A rule: mat3_cases; cases B rule: mat3_cases; cases v)
     (simp add: algebra_simps)

lemma mat_vec_vadd: "mat_vec A (vadd u v) = vadd (mat_vec A u) (mat_vec A v)"
  by (cases A rule: mat3_cases; cases u; cases v) (simp add: algebra_simps)

lemma vadd_assoc: "vadd (vadd u v) w = vadd u (vadd v w)"
  by (cases u; cases v; cases w) simp

lemma trafo_mult_assoc:
  "trafo_mult (trafo_mult A B) C = trafo_mult A (trafo_mult B C)"
  by (simp add: trafo_mult_def mat_mul_assoc mat_vec_mat_mul mat_vec_vadd vadd_assoc)

lemma trafo_mult_Identity_left: "trafo_mult Identity A = A"
  by (cases "linear_part A" rule: mat3_cases; cases "translation A")
     (simp add: trafo_mult_def Identity_def identity3_def)

lemma trafo_mult_Identity_right: "trafo_mult A Identity = A"
  by (cases "linear_part A" rule: mat3_cases; cases "translation A")
     (simp add: trafo_mult_def Identity_def identity3_def)


lemma adjugate3_left: "mat_mul (adjugate3 M) M = scale3 (det3 M) identity3"
  by (cases M rule: mat3_cases) (simp add: identity3_def algebra_simps)

lemma adjugate3_right: "mat_mul M (adjugate3 M) = scale3 (det3 M) identity3"
  by (cases M rule: mat3_cases) (simp add: identity3_def algebra_simps)

lemma mat_mul_scale3_left: "mat_mul (scale3 k A) B = scale3 k (mat_mul A B)"
  by (cases A rule: mat3_cases; cases B rule: mat3_cases) (simp add: algebra_simps)

lemma mat_mul_scale3_right: "mat_mul A (scale3 k B) = scale3 k (mat_mul A B)"
  by (cases A rule: mat3_cases; cases B rule: mat3_cases) (simp add: algebra_simps)

lemma scale3_scale3_identity: "k * d = 1 \<Longrightarrow> scale3 k (scale3 d identity3) = identity3"
  by (simp add: identity3_def)

lemma mat_vec_identity3 [simp]: "mat_vec identity3 v = v"
  by (cases v) (simp add: identity3_def)

lemma vadd_vneg [simp]: "vadd v (vneg v) = (0, 0, 0)" "vadd (vneg v) v = (0, 0, 0)"
  by (cases v, simp)+

lemma mat_vec_vneg: "mat_vec A (vneg v) = vneg (mat_vec A v)"
  by (cases A rule: mat3_cases; cases v) (simp add: algebra_simps)

lemma trafo_inverse_Some:
  assumes "trafo_inverse A = Some Ai"
  shows "det3 (linear_part A) \<noteq> 0"
    and "linear_part Ai = scale3 (1 / det3 (linear_part A)) (adjugate3 (linear_part A))"
    and "translation Ai = vneg (mat_vec (linear_part Ai) (translation A))"
  using assms by (auto simp: trafo_inverse_def Let_def split: if_splits)

lemma trafo_inverse_left:
  assumes "trafo_inverse A = Some Ai"
  shows "trafo_mult Ai A = Identity"
proof -
  note Ai = trafo_inverse_Some [OF assms]
  have "mat_mul (linear_part Ai) (linear_part A) = identity3"
    using Ai(1) by (simp add: Ai(2) mat_mul_scale3_left adjugate3_left scale3_scale3_identity)
  then show ?thesis
    by (simp add: trafo_mult_def Identity_def Ai(3))
qed

lemma trafo_inverse_right:
  assumes "trafo_inverse A = Some Ai"
  shows "trafo_mult A Ai = Identity"
proof -
  note Ai = trafo_inverse_Some [OF assms]
  have m: "mat_mul (linear_part A) (linear_part Ai) = identity3"
    using Ai(1) by (simp add: Ai(2) mat_mul_scale3_right adjugate3_right scale3_scale3_identity)
  have "mat_vec (linear_part A) (translation Ai) = vneg (translation A)"
    by (simp add: Ai(3) mat_vec_vneg mat_vec_mat_mul [symmetric] m)
  then show ?thesis
    by (simp add: trafo_mult_def Identity_def m)
qed

lemma left_inverse_unique:
  assumes "trafo_mult X T = Identity" and "trafo_inverse T = Some Ti"
  shows "X = Ti"
proof -
  have "X = trafo_mult X (trafo_mult T Ti)"
    by (simp add: trafo_inverse_right [OF assms(2)] trafo_mult_Identity_right)
  also have "\<dots> = trafo_mult (trafo_mult X T) Ti" by (simp add: trafo_mult_assoc)
  also have "\<dots> = Ti" by (simp add: assms(1) trafo_mult_Identity_left)
  finally show ?thesis .
qed

lemma block34_homogeneous [simp]: "block34 (homogeneous A) = A"
  by (cases "linear_part A" rule: mat3_cases; cases "translation A")
     (simp add: homogeneous_def)

text \<open>
  With an exact square root and a comparison that accepts equal matrices, the
  computation completes on every transform with positive determinant, and both
  invariants hold with equality.
\<close>

lemma exact_square_root_completes:
  assumes root: "mat_sqrt L (homogeneous (trafo s)) = Some (homogeneous H)"
    and square: "trafo_mult H H = trafo s"
    and pos: "0 < det3 (linear_part (trafo s))"
    and refl3: "\<And>M. isApprox3 L M M" and refl34: "\<And>A. isApprox34 L A A"
  shows "\<exists>Hi Ti. trafo_inverse H = Some Hi \<and> trafo_inverse (trafo s) = Some Ti \<and>
           compute_halfspace_transformations L s =
             Inr (s\<lparr>trafo_half := H, trafo_half_inverse := Hi\<rparr>) \<and>
           trafo_mult Hi Hi = Ti"
proof -
  have "det3 (linear_part (trafo s)) = det3 (linear_part H) * det3 (linear_part H)"
    using square [symmetric] by (simp add: trafo_mult_def det3_mat_mul)
  with pos have nzH: "det3 (linear_part H) \<noteq> 0" by auto
  then obtain Hi where Hi: "trafo_inverse H = Some Hi" by (simp add: trafo_inverse_def Let_def)
  from pos obtain Ti where Ti: "trafo_inverse (trafo s) = Some Ti"
    by (simp add: trafo_inverse_def Let_def)
  have "trafo_mult (trafo_mult Hi Hi) (trafo s) =
          trafo_mult Hi (trafo_mult (trafo_mult Hi H) H)"
    by (simp add: square [symmetric] trafo_mult_assoc)
  also have "\<dots> = Identity"
    by (simp add: trafo_inverse_left [OF Hi] trafo_mult_Identity_left)
  finally have eq: "trafo_mult Hi Hi = Ti" using Ti by (rule left_inverse_unique)
  have "compute_halfspace_transformations L s =
          Inr (s\<lparr>trafo_half := H, trafo_half_inverse := Hi\<rparr>)"
    using root pos Hi Ti
    by (simp add: compute_halfspace_transformations_def Let_def det4_homogeneous
        block33_homogeneous refl3 square eq refl34)
  with Hi Ti eq show ?thesis by blast
qed

subsection \<open>The claims about the transform class\<close>

text \<open>The example transforms, evaluated.\<close>

lemmas example_defs = example_eigen_def eigen_double_def example_sqrt_def example_state_def
  scaling_def Base_def Identity_def identity3_def isApprox_coeffs_def coeffs34_def sum_sq_def
  homogeneous_def compute_halfspace_transformations_def compute_offset_def trafo_inverse_def trafo_mult_def
  halfspace_invariant_def halves_recomputed_def Let_def

lemma set_transform_example:
  "set_transform example_eigen (scaling 4 (0, 0, 0)) example_state =
     Inr (example_state\<lparr>trafo := scaling 4 (0, 0, 0), trafo_half := scaling 2 (0, 0, 0),
            trafo_half_inverse := scaling (1 / 2) (0, 0, 0)\<rparr>)"
  by (simp add: set_transform_def example_defs)

lemma set_matrix_example:
  "set_matrix example_eigen ((4, 0, 0), (0, 4, 0), (0, 0, 4)) example_state =
     Inr (example_state\<lparr>trafo := scaling 4 (- 3, 0, 0), trafo_half := scaling 2 (- 1, 0, 0),
            trafo_half_inverse := scaling (1 / 2) (1 / 2, 0, 0)\<rparr>)"
  by (simp add: set_matrix_def example_defs)

lemma set_translation_example:
  "set_translation example_eigen (4, 0, 0) example_state =
     Inr (example_state\<lparr>trafo := scaling 1 (4, 0, 0), trafo_half := scaling 1 (2, 0, 0),
            trafo_half_inverse := scaling 1 (- 2, 0, 0)\<rparr>)"
  by (simp add: set_translation_def example_defs)

lemma set_centre_example:
  "set_centre example_eigen (1, 0, 0) (Base 12) = Inr example_state"
  by (simp add: set_centre_def example_defs)

lemma set_offset_example:
  "set_offset example_eigen (4, 0, 0) example_state =
     Inr (example_state\<lparr>trafo := scaling 1 (4, 0, 0), trafo_half := scaling 1 (2, 0, 0),
            trafo_half_inverse := scaling 1 (- 2, 0, 0)\<rparr>)"
  by (simp add: set_offset_def example_defs)

text \<open>
  C1. Whenever one of the five mutators \<^verbatim>\<open>set_transform\<close>, \<^verbatim>\<open>set_matrix\<close>,
  \<^verbatim>\<open>set_translation\<close>, \<^verbatim>\<open>set_centre\<close>, \<^verbatim>\<open>set_offset\<close> has completed (no assertion
  failed), the stored half transform composed with itself is approximately the stored
  full transform, and the stored half-inverse composed with itself is approximately the
  inverse of the full transform, in the sense of the library's \<^verbatim>\<open>isApprox\<close>.
\<close>

theorem mutation_establishes_halfspace_invariant:
  "(set_transform L T s = Inr s1 \<longrightarrow> halfspace_invariant L s1) \<and>
   (set_matrix L mat s = Inr s2 \<longrightarrow> halfspace_invariant L s2) \<and>
   (set_translation L t s = Inr s3 \<longrightarrow> halfspace_invariant L s3) \<and>
   (set_centre L ce s = Inr s4 \<longrightarrow> halfspace_invariant L s4) \<and>
   (set_offset L off s = Inr s5 \<longrightarrow> halfspace_invariant L s5)"
  unfolding mutator_defs halfspace_invariant_def
  by (auto dest!: compute_halfspace_Inr)

theorem mutation_establishes_halfspace_invariant_witness:
  "halfspace_invariant example_eigen
     (example_state\<lparr>trafo := scaling 4 (0, 0, 0), trafo_half := scaling 2 (0, 0, 0),
            trafo_half_inverse := scaling (1 / 2) (0, 0, 0)\<rparr>) \<and>
   halfspace_invariant example_eigen
     (example_state\<lparr>trafo := scaling 4 (- 3, 0, 0), trafo_half := scaling 2 (- 1, 0, 0),
            trafo_half_inverse := scaling (1 / 2) (1 / 2, 0, 0)\<rparr>) \<and>
   halfspace_invariant example_eigen
     (example_state\<lparr>trafo := scaling 1 (4, 0, 0), trafo_half := scaling 1 (2, 0, 0),
            trafo_half_inverse := scaling 1 (- 2, 0, 0)\<rparr>) \<and>
   halfspace_invariant example_eigen example_state"
  using mutation_establishes_halfspace_invariant
    [of example_eigen "scaling 4 (0, 0, 0)" example_state _
        "((4, 0, 0), (0, 4, 0), (0, 0, 4))" _ "(4, 0, 0)" _ "(1, 0, 0)" _ "(4, 0, 0)"]
    mutation_establishes_halfspace_invariant
    [of example_eigen _ "Base 12" _ _ _ _ _ "(1, 0, 0)"]
    set_transform_example set_matrix_example set_translation_example set_centre_example
    set_offset_example
  by blast




text \<open>
  C3. The half-transform computation on a transform whose 4x4 homogeneous matrix has a
  determinant that is not positive stops at an assertion (at \<^verbatim>\<open>tmp.determinant() > 0\<close>
  when the comparison of a matrix with itself succeeds), so each of the five mutators
  fails on such a transform; and whenever the computation completes, the determinant was
  positive.
\<close>

theorem nonpositive_determinant_rejected:
  "(det4 (homogeneous (trafo s)) \<le> 0 \<longrightarrow>
      (\<exists>e. compute_halfspace_transformations L s = Inl (AssertionFailed e))) \<and>
   (det4 (homogeneous (trafo s)) \<le> 0 \<and>
    isApprox3 L (linear_part (trafo s)) (linear_part (trafo s)) \<longrightarrow>
      compute_halfspace_transformations L s =
        Inl (AssertionFailed ''tmp.determinant() > 0'')) \<and>
   (det4 (homogeneous T) \<le> 0 \<longrightarrow> (\<exists>e. set_transform L T s = Inl (AssertionFailed e))) \<and>
   (det3 mat \<le> 0 \<longrightarrow> (\<exists>e. set_matrix L mat s = Inl (AssertionFailed e))) \<and>
   (det3 (linear_part (trafo s)) \<le> 0 \<longrightarrow>
      (\<exists>e. set_translation L t s = Inl (AssertionFailed e)) \<and>
      (\<exists>e. set_centre L ce s = Inl (AssertionFailed e)) \<and>
      (\<exists>e. set_offset L off s = Inl (AssertionFailed e))) \<and>
   (compute_halfspace_transformations L s = Inr s' \<longrightarrow> 0 < det4 (homogeneous (trafo s)))"
proof -
  have pos: "compute_halfspace_transformations L s = Inr s' \<longrightarrow>
      0 < det4 (homogeneous (trafo s))"
    by (auto dest: compute_halfspace_Inr)
  show ?thesis
    using pos
    by (simp add: mutator_defs det4_homogeneous compute_halfspace_rejects compute_offset_def
        Let_def)
qed

theorem nonpositive_determinant_rejected_witness:
  "det4 (homogeneous reflection) \<le> 0 \<and>
   compute_halfspace_transformations example_eigen ((Base 6)\<lparr>trafo := reflection\<rparr>) =
     Inl (AssertionFailed ''tmp.determinant() > 0'') \<and>
   (\<exists>e. set_transform example_eigen reflection ((Base 6)\<lparr>trafo := reflection\<rparr>) =
      Inl (AssertionFailed e)) \<and>
   (\<exists>e. set_matrix example_eigen (linear_part reflection) ((Base 6)\<lparr>trafo := reflection\<rparr>) =
      Inl (AssertionFailed e)) \<and>
   (\<exists>e. set_translation example_eigen (1, 2, 3) ((Base 6)\<lparr>trafo := reflection\<rparr>) =
      Inl (AssertionFailed e)) \<and>
   0 < det4 (homogeneous (trafo (Base 12)))"
proof -
  have d: "det4 (homogeneous reflection) \<le> 0" "det3 (linear_part reflection) \<le> 0"
    by (simp_all add: reflection_def homogeneous_def)
  have r: "isApprox3 example_eigen (linear_part reflection) (linear_part reflection)"
    by (simp add: reflection_def example_eigen_def eigen_double_def isApprox_coeffs_def
        sum_sq_def)
  have h: "det4 (homogeneous (trafo (Base 12))) = 1"
    by (simp add: Base_def Identity_def identity3_def homogeneous_def)
  have c: "compute_halfspace_transformations example_eigen (Base 12) = Inr (Base 12)"
    by (simp add: example_defs)
  from nonpositive_determinant_rejected
         [of "(Base 6)\<lparr>trafo := reflection\<rparr>" example_eigen reflection
             "linear_part reflection" "(1, 2, 3)"] d r
       nonpositive_determinant_rejected [of "Base 12" example_eigen _ _ _ _ _ "Base 12"] c
  show ?thesis by (simp add: h)
qed


section \<open>Properties of the registration command\<close>

subsection \<open>Sequencing and the option section\<close>

lemmas handler_defs =
  check_dimensions_def handle_noreorientation_def load_images_def handle_transformed_def
  handle_transformed_midway_def handle_type_def handle_rigid_def
  handle_rigid_init_def handle_rigid_centre_def handle_rigid_scale_def handle_rigid_niter_def
  handle_rigid_metric_def handle_rigid_global_search_def handle_affine_def
  handle_affine_1tomidway_def handle_affine_2tomidway_def handle_affine_init_def
  handle_affine_centre_def handle_affine_scale_def handle_affine_repetitions_def
  handle_affine_loop_density_def handle_affine_metric_def handle_affine_robust_estimator_def
  handle_affine_robust_median_def handle_affine_global_search_def handle_affine_niter_def
  handle_syn_warp_def warn_affine_superseded_def warn_rigid_superseded_def
  warn_affine_init_ignored_def warn_rigid_init_ignored_def handle_syn_init_def
  handle_syn_scale_def handle_syn_niter_def handle_syn_update_smooth_def
  handle_syn_disp_smooth_def handle_syn_grad_step_def

lemmas basic_defs =
  emit_def throw_def on_rigid_registration_def on_affine_registration_def
  on_syn_registration_def set_init_type_def

lemmas options_defs =
  options_def options_before_syn_init_def options_after_syn_init_def
  input_program_def rigid_options_def affine_options_def

lemma seq_thrown: "thrown s \<noteq> None \<Longrightarrow> seq hs s = s"
  by (cases hs) auto

lemma seq_append: "seq (xs @ ys) s = seq ys (seq xs s)"
  by (induction xs arbitrary: s) (auto simp: seq_thrown)

lemma seq_invariant:
  assumes "\<And>h s. h \<in> set hs \<Longrightarrow> P s \<Longrightarrow> P (h s)" and "P s"
  shows "P (seq hs s)"
  using assms by (induction hs arbitrary: s) auto

lemma optimisations_append [simp]:
  "optimisations (xs @ ys) = optimisations xs @ optimisations ys"
  by (simp add: optimisations_def)

lemma resamplings_append [simp]:
  "resamplings (xs @ ys) = resamplings xs @ resamplings ys"
  by (simp add: resamplings_def)

lemma optimisations_simps [simp]:
  "optimisations [] = []"
  "optimisations (WARN w # es) = optimisations es"
  "optimisations (Image_create f # es) = optimisations es"
  "optimisations (Get_output_warps # es) = optimisations es"
  "optimisations (Save_transform T f # es) = optimisations es"
  "optimisations (Output oc # es) = optimisations es"
  "optimisations (Run_masked st reg m t t' # es) = Run_masked st reg m t t' # optimisations es"
  "optimisations (Syn_run sreg t # es) = Syn_run sreg t # optimisations es"
  by (simp_all add: optimisations_def)

lemma resamplings_simps [simp]:
  "resamplings [] = []"
  "resamplings (WARN w # es) = resamplings es"
  "resamplings (Image_create f # es) = resamplings es"
  "resamplings (Get_output_warps # es) = resamplings es"
  "resamplings (Save_transform T f # es) = resamplings es"
  "resamplings (Output oc # es) = Output oc # resamplings es"
  "resamplings (Run_masked st reg m t t' # es) = resamplings es"
  "resamplings (Syn_run sreg t # es) = resamplings es"
  by (simp_all add: resamplings_def)

lemma option_handler_quiet:
  assumes "h \<in> set (options E c)"
  shows "optimisations (trace (h s)) = optimisations (trace s) \<and>
         resamplings (trace (h s)) = resamplings (trace s)"
  using assms unfolding options_defs
  by (auto simp: handler_defs basic_defs Let_def split: option.splits sum.splits prod.splits)


lemmas stage_defs =
  rigid_run_masked_def rigid_dispatch_def save_rigid_def run_rigid_registration_def
  seed_affine_from_rigid_def affine_directions_def affine_run_masked_def
  affine_dispatch_def save_affine_def run_affine_registration_def syn_directions_def
  syn_run_def syn_output_warps_def run_syn_registration_def

lemmas output_defs =
  warp_image_def reslice_image_def output_transformed_def output_midway_def outputs_def

lemma seq_options_quiet:
  assumes "set hs \<subseteq> set (options E c)"
    and "optimisations (trace s) = [] \<and> resamplings (trace s) = []"
  shows "optimisations (trace (seq hs s)) = [] \<and> resamplings (trace (seq hs s)) = []"
  using assms(2)
proof (rule seq_invariant [where P = "\<lambda>s::rstate. optimisations (trace s) = [] \<and> resamplings (trace s) = []", rotated])
  fix h and s :: rstate
  assume "h \<in> set hs" and "optimisations (trace s) = [] \<and> resamplings (trace s) = []"
  with assms(1) option_handler_quiet [of h E c s]
  show "optimisations (trace (h s)) = [] \<and> resamplings (trace (h s)) = []"
    by auto
qed

lemma initial_quiet:
  "optimisations (trace initial_state) = [] \<and> resamplings (trace initial_state) = []"
  by (simp add: initial_state_def)

lemma configured_quiet:
  "optimisations (trace (configured E c)) = [] \<and> resamplings (trace (configured E c)) = []"
  unfolding configured_def by (rule seq_options_quiet [of _ E c, OF _ initial_quiet]) simp

lemma before_syn_init_quiet:
  "optimisations (trace (before_syn_init E c)) = [] \<and>
   resamplings (trace (before_syn_init E c)) = []"
  unfolding before_syn_init_def
  by (rule seq_options_quiet [of _ E c, OF _ initial_quiet]) (auto simp: options_def)

lemma after_syn_init_quiet:
  "optimisations (trace (after_syn_init E c)) = [] \<and>
   resamplings (trace (after_syn_init E c)) = []"
  unfolding after_syn_init_def
  by (rule seq_options_quiet [of _ E c, OF _ initial_quiet]) (auto simp: options_def)

subsection \<open>The rigid stage\<close>

lemma rigid_stage_frame:
  "do_rigid (run_rigid_registration E c s) = do_rigid s"
  "do_affine (run_rigid_registration E c s) = do_affine s"
  "do_syn (run_rigid_registration E c s) = do_syn s"
  "affine (run_rigid_registration E c s) = affine s"
  "affine_metric (run_rigid_registration E c s) = affine_metric s"
  "resamplings (trace (run_rigid_registration E c s)) = resamplings (trace s)"
  by (simp_all add: stage_defs basic_defs Let_def)

lemma rigid_stage_skipped: "\<not> do_rigid s \<Longrightarrow> run_rigid_registration E c s = s"
  by (simp add: run_rigid_registration_def)

lemma rigid_stage_thrown:
  "thrown s = None \<Longrightarrow>
   thrown (run_rigid_registration E c s) =
     (if do_rigid s \<and> im2_ndim c = 4 \<and> rigid_metric s = NCC
      then Some (Exception
        ''cross correlation metric not implemented for data with more than 3 dimensions'')
      else None)"
  by (simp add: stage_defs basic_defs Let_def)

lemma rigid_stage_runs:
  assumes "thrown s = None" and "do_rigid s"
  shows "(thrown (run_rigid_registration E c s) \<noteq> None \<and>
          optimisations (trace (run_rigid_registration E c s)) = optimisations (trace s)) \<or>
         (thrown (run_rigid_registration E c s) = None \<and>
          (\<exists>reg m. optimisations (trace (run_rigid_registration E c s)) =
             optimisations (trace s) @
               [Run_masked Rigid reg m (rigid s) (rigid (run_rigid_registration E c s))]))"
  using assms by (simp add: stage_defs basic_defs Let_def)

subsection \<open>The affine stage\<close>

lemma save_affine_frame [simp]:
  "thrown (save_affine s) = thrown s"
  "do_rigid (save_affine s) = do_rigid s"
  "do_affine (save_affine s) = do_affine s"
  "do_syn (save_affine s) = do_syn s"
  "rigid (save_affine s) = rigid s"
  "affine (save_affine s) = affine s"
  "optimisations (trace (save_affine s)) = optimisations (trace s)"
  "resamplings (trace (save_affine s)) = resamplings (trace s)"
  by (simp_all add: save_affine_def basic_defs Let_def)

lemma affine_directions_frame [simp]:
  "thrown (affine_directions s) = thrown s"
  "do_rigid (affine_directions s) = do_rigid s"
  "do_affine (affine_directions s) = do_affine s"
  "do_syn (affine_directions s) = do_syn s"
  "rigid (affine_directions s) = rigid s"
  "affine (affine_directions s) = affine s"
  "affine_metric (affine_directions s) = affine_metric s"
  "affine_estimator (affine_directions s) = affine_estimator s"
  "trace (affine_directions s) = trace s"
  "lin_init_type (affine_registration (affine_directions s)) =
     lin_init_type (affine_registration s)"
  by (simp_all add: affine_directions_def basic_defs)

lemma seed_frame [simp]:
  "do_rigid (seed_affine_from_rigid E s) = do_rigid s"
  "do_affine (seed_affine_from_rigid E s) = do_affine s"
  "do_syn (seed_affine_from_rigid E s) = do_syn s"
  "rigid (seed_affine_from_rigid E s) = rigid s"
  "affine_metric (seed_affine_from_rigid E s) = affine_metric s"
  "affine_estimator (seed_affine_from_rigid E s) = affine_estimator s"
  "trace (seed_affine_from_rigid E s) = trace s"
  by (simp_all add: seed_affine_from_rigid_def basic_defs split: sum.splits)

lemma seed_result:
  assumes "thrown s = None"
  shows "(thrown (seed_affine_from_rigid E s) \<noteq> None) \<or>
         (thrown (seed_affine_from_rigid E s) = None \<and>
          (if do_rigid s
           then seed_from (eigen E) (rigid s) (affine s) = Inr (affine (seed_affine_from_rigid E s)) \<and>
                lin_init_type (affine_registration (seed_affine_from_rigid E s)) = Some Init_none
           else seed_affine_from_rigid E s = s))"
  using assms by (simp add: seed_affine_from_rigid_def basic_defs split: sum.splits)

lemma seed_failure:
  assumes "thrown s = None" and "thrown (seed_affine_from_rigid E s) \<noteq> None"
  shows "\<exists>e. thrown (seed_affine_from_rigid E s) = Some (AssertionFailed e)"
  using assms
  by (auto simp: seed_affine_from_rigid_def basic_defs seed_from_def
      split: sum.splits if_splits dest: mutator_Inl)

lemma affine_dispatch_frame [simp]:
  "do_rigid (affine_dispatch E c s) = do_rigid s"
  "do_affine (affine_dispatch E c s) = do_affine s"
  "do_syn (affine_dispatch E c s) = do_syn s"
  "rigid (affine_dispatch E c s) = rigid s"
  "resamplings (trace (affine_dispatch E c s)) = resamplings (trace s)"
  by (simp_all add: affine_dispatch_def affine_run_masked_def basic_defs Let_def
      split: LinearRobustMetricEstimatorType.splits)

lemma affine_dispatch_thrown:
  "thrown s = None \<Longrightarrow>
   thrown (affine_dispatch E c s) =
     (if im2_ndim c = 4 \<and> affine_metric s = NCC
      then Some (Exception
        ''cross correlation metric not implemented for data with more than 3 dimensions'')
      else None)"
  by (simp add: affine_dispatch_def affine_run_masked_def basic_defs Let_def
      split: LinearRobustMetricEstimatorType.splits)

lemma affine_dispatch_runs:
  assumes "thrown s = None"
  shows "(thrown (affine_dispatch E c s) \<noteq> None \<and>
          optimisations (trace (affine_dispatch E c s)) = optimisations (trace s)) \<or>
         (thrown (affine_dispatch E c s) = None \<and>
          (\<exists>reg m. optimisations (trace (affine_dispatch E c s)) =
             optimisations (trace s) @
               [Run_masked Affine reg m (affine s) (affine (affine_dispatch E c s))] \<and>
             lin_init_type reg = lin_init_type (affine_registration s)))"
  using assms
  by (simp add: affine_dispatch_def affine_run_masked_def basic_defs Let_def
      split: LinearRobustMetricEstimatorType.splits)


lemma affine_stage_skipped: "\<not> do_affine s \<Longrightarrow> run_affine_registration E c s = s"
  by (simp add: run_affine_registration_def)

lemma affine_stage_frame:
  "do_rigid (run_affine_registration E c s) = do_rigid s"
  "do_affine (run_affine_registration E c s) = do_affine s"
  "do_syn (run_affine_registration E c s) = do_syn s"
  "rigid (run_affine_registration E c s) = rigid s"
  "resamplings (trace (run_affine_registration E c s)) = resamplings (trace s)"
  by (simp_all add: run_affine_registration_def)

lemma affine_stage_runs:
  assumes "thrown s = None" and "do_affine s"
  shows "(optimisations (trace (run_affine_registration E c s)) = optimisations (trace s) \<and>
          ((\<exists>e. thrown (run_affine_registration E c s) = Some (AssertionFailed e) \<and> do_rigid s) \<or>
           (thrown (run_affine_registration E c s) = Some (Exception NCC_message) \<and>
            im2_ndim c = 4 \<and> affine_metric s = NCC))) \<or>
         (thrown (run_affine_registration E c s) = None \<and>
          \<not> (im2_ndim c = 4 \<and> affine_metric s = NCC) \<and>
          (\<exists>reg m ain. optimisations (trace (run_affine_registration E c s)) =
             optimisations (trace s) @
               [Run_masked Affine reg m ain (affine (run_affine_registration E c s))] \<and>
             (if do_rigid s
              then seed_from (eigen E) (rigid s) (affine s) = Inr ain \<and>
                   lin_init_type reg = Some Init_none
              else ain = affine s)))"
proof -
  define a where "a = seed_affine_from_rigid E s"
  define b where "b = affine_directions a"
  define d where "d = affine_dispatch E c b"
  show ?thesis
  proof (cases "thrown a = None")
    case False
    then have r: "run_affine_registration E c s = a"
      using assms by (auto simp: run_affine_registration_def a_def)
    from False seed_failure [of s E] assms(1)
    obtain e where "thrown a = Some (AssertionFailed e)" by (auto simp: a_def)
    moreover have "do_rigid s"
      using False assms(1) by (auto simp: a_def seed_affine_from_rigid_def split: if_splits)
    ultimately show ?thesis using r by (simp add: a_def)
  next
    case True
    have seeded: "if do_rigid s
           then seed_from (eigen E) (rigid s) (affine s) = Inr (affine a) \<and>
                lin_init_type (affine_registration a) = Some Init_none
           else a = s"
      using seed_result [OF assms(1), of E] True by (simp add: a_def)
    have bT: "thrown b = None" using True by (simp add: b_def)
    have r: "run_affine_registration E c s = (if thrown d = None then save_affine d else d)"
      using assms True bT by (simp add: run_affine_registration_def a_def b_def d_def)
    have am: "affine_metric b = affine_metric s" by (simp add: b_def a_def)
    show ?thesis
    proof (cases "thrown d = None")
      case False
      with affine_dispatch_thrown [OF bT, of E c] am
      have "thrown d = Some (Exception NCC_message)" "im2_ndim c = 4" "affine_metric s = NCC"
        by (auto simp: d_def NCC_message_def split: if_splits)
      moreover from affine_dispatch_runs [OF bT, of E c] False
      have "optimisations (trace d) = optimisations (trace s)"
        by (auto simp: d_def b_def a_def)
      ultimately show ?thesis using r False by simp
    next
      case dT: True
      with affine_dispatch_thrown [OF bT, of E c] am
      have noncc: "\<not> (im2_ndim c = 4 \<and> affine_metric s = NCC)"
        by (auto simp: d_def split: if_splits)
      from affine_dispatch_runs [OF bT, of E c] dT
      obtain reg m where
        tr: "optimisations (trace d) = optimisations (trace b) @ [Run_masked Affine reg m (affine b) (affine d)]"
        and reg: "lin_init_type reg = lin_init_type (affine_registration b)"
        by (auto simp: d_def)
      have "optimisations (trace (save_affine d)) =
              optimisations (trace s) @ [Run_masked Affine reg m (affine a) (affine (save_affine d))]"
        using tr by (simp add: b_def a_def)
      moreover have "if do_rigid s
             then seed_from (eigen E) (rigid s) (affine s) = Inr (affine a) \<and>
                  lin_init_type reg = Some Init_none
             else affine a = affine s"
        using seeded reg by (auto simp: b_def)
      ultimately show ?thesis using r dT noncc by auto
    qed
  qed
qed

subsection \<open>The SyN stage and the outputs\<close>

lemma syn_stage_frame:
  "thrown s = None \<Longrightarrow> thrown (run_syn_registration s) = None"
  "do_rigid (run_syn_registration s) = do_rigid s"
  "do_affine (run_syn_registration s) = do_affine s"
  "do_syn (run_syn_registration s) = do_syn s"
  "resamplings (trace (run_syn_registration s)) = resamplings (trace s)"
  by (simp_all add: stage_defs basic_defs Let_def)

lemma syn_stage_runs:
  assumes "thrown s = None"
  shows "\<exists>sreg. optimisations (trace (run_syn_registration s)) =
           optimisations (trace s) @
             (if do_syn s
              then [Syn_run sreg (if do_affine s then affine s
                                  else if do_rigid s then rigid s else Affine_new)]
              else [])"
  using assms by (simp add: stage_defs basic_defs Let_def)

lemma outputs_frame:
  "optimisations (trace (seq (outputs c) s)) = optimisations (trace s)"
  "thrown (seq (outputs c) s) = thrown s"
  "do_rigid (seq (outputs c) s) = do_rigid s"
  "do_affine (seq (outputs c) s) = do_affine s"
  "do_syn (seq (outputs c) s) = do_syn s"
  by (simp_all add: output_defs basic_defs Let_def)

subsection \<open>The affine transform before the registrations\<close>

lemma seq_invariant_running:
  assumes "\<And>h s. h \<in> set hs \<Longrightarrow> thrown s = None \<Longrightarrow> P s \<Longrightarrow> P (h s)" and "P s"
  shows "P (seq hs s)"
  using assms by (induction hs arbitrary: s) auto

lemma affine_fresh_before_affine_options:
  "affine (seq (input_program E c @ rigid_options E c) initial_state) = Affine_new"
proof (rule seq_invariant_running [where P = "\<lambda>s::rstate. affine s = Affine_new"])
  show "affine initial_state = Affine_new" by (simp add: initial_state_def)
next
  fix h and s :: rstate
  assume "h \<in> set (input_program E c @ rigid_options E c)" "affine s = Affine_new"
  then show "affine (h s) = Affine_new"
    unfolding input_program_def rigid_options_def
    by (auto simp: handler_defs basic_defs Let_def split: option.splits sum.splits prod.splits)
qed

lemma configured_affine_fresh:
  assumes "thrown (configured E c) = None" and "do_rigid (configured E c)"
  shows "affine (configured E c) = Affine_new"
proof -
  let ?P = "\<lambda>s::rstate. thrown s = None \<and> do_rigid s \<longrightarrow> affine s = Affine_new"
  let ?rest = "affine_options E c @ [handle_syn_warp c] @ [handle_syn_init c]
                 @ options_after_syn_init c"
  have split: "configured E c =
      seq ?rest (seq (input_program E c @ rigid_options E c) initial_state)"
    by (simp add: configured_def options_def options_before_syn_init_def seq_append)
  have "?P (seq ?rest (seq (input_program E c @ rigid_options E c) initial_state))"
  proof (rule seq_invariant_running [where P = ?P])
    show "?P (seq (input_program E c @ rigid_options E c) initial_state)"
      by (simp add: affine_fresh_before_affine_options)
  next
    fix h and s :: rstate
    assume "h \<in> set ?rest" "thrown s = None" "?P s"
    then show "?P (h s)"
      unfolding affine_options_def options_after_syn_init_def
      by (auto simp: handler_defs basic_defs Let_def
          split: option.splits sum.splits prod.splits if_splits)
  qed
  with assms show ?thesis by (simp add: split)
qed

subsection \<open>The registration section as a whole\<close>

lemma linear_runs_optimisations: "linear_runs st (optimisations tr) = linear_runs st tr"
proof (induction tr)
  case Nil
  show ?case by simp
next
  case (Cons e tr)
  then show ?case by (cases e) simp_all
qed

lemma syn_runs_optimisations: "syn_runs (optimisations tr) = syn_runs tr"
proof (induction tr)
  case Nil
  show ?case by simp
next
  case (Cons e tr)
  then show ?case by (cases e) simp_all
qed

lemma run_split:
  "run E c = seq (outputs c) (seq (registration E c) (configured E c))"
  by (simp add: run_def program_def configured_def seq_append)

lemma registration_unfold:
  "thrown p = None \<Longrightarrow>
   seq (registration E c) p =
     (let s1 = run_rigid_registration E c p in
      if thrown s1 \<noteq> None then s1
      else (let s2 = run_affine_registration E c s1 in
            if thrown s2 \<noteq> None then s2 else run_syn_registration s2))"
  by (simp add: registration_def Let_def)

lemma registration_summary:
  fixes E :: env and c :: cmdline and p :: rstate
  assumes pT: "thrown p = None" and pQ: "optimisations (trace p) = []"
  defines "r \<equiv> seq (outputs c) (seq (registration E c) p)"
  shows "\<exists>R A S. optimisations (trace r) = R @ A @ S \<and>
      (R = [] \<or> (do_rigid p \<and> (\<exists>reg m rout. R = [Run_masked Rigid reg m (rigid p) rout]))) \<and>
      (A = [] \<or> (do_affine p \<and> (\<exists>reg m ain aout. A = [Run_masked Affine reg m ain aout] \<and>
          (if do_rigid p
           then \<exists>reg' m' rout. R = [Run_masked Rigid reg' m' (rigid p) rout] \<and>
                  seed_from (eigen E) rout (affine p) = Inr ain \<and>
                  lin_init_type reg = Some Init_none
           else ain = affine p)))) \<and>
      (S = [] \<or> (do_syn p \<and> thrown r = None \<and> (\<exists>sreg t. S = [Syn_run sreg t] \<and>
          (if do_affine p then \<exists>reg m ain. A = [Run_masked Affine reg m ain t]
           else if do_rigid p then \<exists>reg m. R = [Run_masked Rigid reg m (rigid p) t]
           else t = Affine_new)))) \<and>
      (thrown r = None \<longrightarrow>
         (do_rigid p \<longrightarrow> R \<noteq> []) \<and> (do_affine p \<longrightarrow> A \<noteq> []) \<and> (do_syn p \<longrightarrow> S \<noteq> []))"
proof -
  define s1 where "s1 = run_rigid_registration E c p"
  define s2 where "s2 = run_affine_registration E c s1"
  define s3 where "s3 = run_syn_registration s2"
  note fr1 = rigid_stage_frame [of E c p, folded s1_def]
  note fr2 = affine_stage_frame [of E c s1, folded s2_def]
  have reg: "seq (registration E c) p =
      (if thrown s1 \<noteq> None then s1 else if thrown s2 \<noteq> None then s2 else s3)"
    using pT by (simp add: registration_unfold s1_def s2_def s3_def Let_def)
  have R: "(thrown s1 \<noteq> None \<and> optimisations (trace s1) = []) \<or>
           (thrown s1 = None \<and> \<not> do_rigid p \<and> s1 = p) \<or>
           (thrown s1 = None \<and> do_rigid p \<and>
            (\<exists>reg m. optimisations (trace s1) = [Run_masked Rigid reg m (rigid p) (rigid s1)]))"
  proof (cases "do_rigid p")
    case False
    then show ?thesis using pT pQ by (simp add: s1_def rigid_stage_skipped)
  next
    case True
    from rigid_stage_runs [OF pT True, of E c] show ?thesis
      using pQ True by (auto simp: s1_def)
  qed
  show ?thesis
  proof (cases "thrown s1 = None")
    case False
    then have "r = s1" using reg by (simp add: r_def seq_thrown)
    moreover have "optimisations (trace s1) = []" using R False by auto
    ultimately have t1: "optimisations (trace r) = [] @ [] @ []" "thrown r \<noteq> None"
      using False by simp_all
    show ?thesis
      by (rule exI [of _ "[]"], rule exI [of _ "[]"], rule exI [of _ "[]"])
        (use t1 in auto)
  next
    case s1T: True
    define RR where "RR = optimisations (trace s1)"
    have RR: "(RR = [] \<and> \<not> do_rigid p) \<or>
              (do_rigid p \<and> (\<exists>reg m. RR = [Run_masked Rigid reg m (rigid p) (rigid s1)]))"
      using R s1T pQ by (auto simp: RR_def)
    have A: "(thrown s2 \<noteq> None \<and> optimisations (trace s2) = RR) \<or>
             (thrown s2 = None \<and> \<not> do_affine p \<and> s2 = s1) \<or>
             (thrown s2 = None \<and> do_affine p \<and>
              (\<exists>reg m ain. optimisations (trace s2) =
                   RR @ [Run_masked Affine reg m ain (affine s2)] \<and>
                 (if do_rigid p
                  then seed_from (eigen E) (rigid s1) (affine p) = Inr ain \<and>
                       lin_init_type reg = Some Init_none
                  else ain = affine p)))"
    proof (cases "do_affine p")
      case False
      then show ?thesis using s1T fr1 by (simp add: s2_def affine_stage_skipped)
    next
      case True
      then have "do_affine s1" using fr1 by simp
      from affine_stage_runs [OF s1T this, of E c] show ?thesis
        using True fr1 by (auto simp: s2_def RR_def)
    qed
    show ?thesis
    proof (cases "thrown s2 = None")
      case False
      then have "r = s2" using reg s1T by (simp add: r_def seq_thrown)
      moreover have "optimisations (trace s2) = RR" using A False by auto
      ultimately have t2: "optimisations (trace r) = RR @ [] @ []" "thrown r \<noteq> None"
        using False by simp_all
      have fR: "RR = [] \<or>
          (do_rigid p \<and> (\<exists>reg m rout. RR = [Run_masked Rigid reg m (rigid p) rout]))"
        using RR by auto
      show ?thesis
        by (rule exI [of _ RR], rule exI [of _ "[]"], rule exI [of _ "[]"])
          (use t2 fR in auto)
    next
      case s2T: True
      define AA where "AA = (if do_affine p then [last (optimisations (trace s2))] else [])"
      have AA: "optimisations (trace s2) = RR @ AA"
        using A s2T by (auto simp: AA_def RR_def)
      have AA': "(AA = [] \<and> \<not> do_affine p \<and> s2 = s1) \<or>
                 (do_affine p \<and> (\<exists>reg m ain. AA = [Run_masked Affine reg m ain (affine s2)] \<and>
                     (if do_rigid p
                      then seed_from (eigen E) (rigid s1) (affine p) = Inr ain \<and>
                           lin_init_type reg = Some Init_none
                      else ain = affine p)))"
      proof (cases "do_affine p")
        case False
        with A s2T have "s2 = s1" by blast
        with False show ?thesis by (simp add: AA_def)
      next
        case True
        with A s2T obtain reg m ain where
          t2: "optimisations (trace s2) = RR @ [Run_masked Affine reg m ain (affine s2)]"
          and sd: "if do_rigid p
                  then seed_from (eigen E) (rigid s1) (affine p) = Inr ain \<and>
                       lin_init_type reg = Some Init_none
                  else ain = affine p"
          by blast
        have "AA = [Run_masked Affine reg m ain (affine s2)]"
          using True t2 by (simp add: AA_def)
        with True sd show ?thesis by blast
      qed
      have r3: "r = seq (outputs c) s3" using reg s1T s2T by (simp add: r_def)
      from syn_stage_runs [OF s2T] obtain sreg where
        S: "optimisations (trace s3) = (RR @ AA) @
             (if do_syn s2
              then [Syn_run sreg (if do_affine s2 then affine s2
                                  else if do_rigid s2 then rigid s2 else Affine_new)]
              else [])"
        by (auto simp: s3_def AA)
      define SS where "SS = (if do_syn p
              then [Syn_run sreg (if do_affine p then affine s2
                                  else if do_rigid p then rigid s1 else Affine_new)]
              else [])"
      have flags: "do_syn s2 = do_syn p" "do_affine s2 = do_affine p" "do_rigid s2 = do_rigid p"
        "rigid s2 = rigid s1"
        using fr1 fr2 by simp_all
      have tr: "optimisations (trace r) = RR @ AA @ SS"
        using S by (simp add: r3 outputs_frame flags SS_def)
      have thr: "thrown r = None"
        using syn_stage_frame(1) [OF s2T] by (simp add: r3 outputs_frame s3_def)
      have fS: "SS = [] \<or> (do_syn p \<and> thrown r = None \<and> (\<exists>sreg t. SS = [Syn_run sreg t] \<and>
          (if do_affine p then \<exists>reg m ain. AA = [Run_masked Affine reg m ain t]
           else if do_rigid p then \<exists>reg m. RR = [Run_masked Rigid reg m (rigid p) t]
           else t = Affine_new)))"
        using AA' RR thr by (auto simp: SS_def)
      have fR: "RR = [] \<or> (do_rigid p \<and> (\<exists>reg m rout. RR = [Run_masked Rigid reg m (rigid p) rout]))"
        using RR by auto
      have fA: "AA = [] \<or> (do_affine p \<and> (\<exists>reg m ain aout. AA = [Run_masked Affine reg m ain aout] \<and>
          (if do_rigid p
           then \<exists>reg' m' rout. RR = [Run_masked Rigid reg' m' (rigid p) rout] \<and>
                  seed_from (eigen E) rout (affine p) = Inr ain \<and>
                  lin_init_type reg = Some Init_none
           else ain = affine p)))"
        using AA' RR by auto
      have fT: "thrown r = None \<longrightarrow>
          (do_rigid p \<longrightarrow> RR \<noteq> []) \<and> (do_affine p \<longrightarrow> AA \<noteq> []) \<and> (do_syn p \<longrightarrow> SS \<noteq> [])"
        using AA' RR by (auto simp: SS_def)
      show ?thesis
        apply (rule exI [of _ RR], rule exI [of _ AA], rule exI [of _ SS])
        apply (intro conjI)
            apply (rule tr, rule fR, rule fA, rule fS, rule fT)
        done
    qed
  qed
qed

lemma linear_runs_append:
  "linear_runs st (xs @ ys) = linear_runs st xs @ linear_runs st ys"
proof (induction xs)
  case Nil
  show ?case by simp
next
  case (Cons e xs)
  then show ?case by (cases e) simp_all
qed

lemma syn_runs_append: "syn_runs (xs @ ys) = syn_runs xs @ syn_runs ys"
proof (induction xs)
  case Nil
  show ?case by simp
next
  case (Cons e xs)
  then show ?case by (cases e) simp_all
qed

lemma run_of_thrown_configuration:
  "thrown (configured E c) \<noteq> None \<Longrightarrow> run E c = configured E c"
  by (simp add: run_split seq_thrown)

lemmas message_defs = NCC_message_def syn_init_not_5D_message_def syn_niter_levels_message_def
  affine_superseded_warning_def rigid_superseded_warning_def

subsection \<open>The options around the resumed bundle\<close>

lemma after_syn_init_unfold:
  "after_syn_init E c =
     (if thrown (before_syn_init E c) = None then handle_syn_init c (before_syn_init E c)
      else before_syn_init E c)"
  by (simp add: after_syn_init_def before_syn_init_def seq_append)

lemma configured_split:
  "configured E c = seq (options_after_syn_init c) (after_syn_init E c)"
  by (simp only: configured_def options_def after_syn_init_def seq_append)

lemma run_of_thrown_after_syn_init:
  assumes "thrown (after_syn_init E c) \<noteq> None"
  shows "run E c = after_syn_init E c"
proof -
  have "configured E c = after_syn_init E c"
    using assms by (simp add: configured_split seq_thrown)
  with assms show ?thesis by (simp add: run_of_thrown_configuration)
qed

lemma run_quiet_when_configuration_thrown:
  assumes "thrown (configured E c) \<noteq> None"
  shows "optimisations (trace (run E c)) = [] \<and> resamplings (trace (run E c)) = []"
  using assms by (simp add: run_of_thrown_configuration configured_quiet)

lemma handle_syn_scale_frame [simp]:
  "syn_init (handle_syn_scale c s) = syn_init s"
  "do_syn (handle_syn_scale c s) = do_syn s"
  "do_rigid (handle_syn_scale c s) = do_rigid s"
  "do_affine (handle_syn_scale c s) = do_affine s"
  by (simp_all add: handle_syn_scale_def basic_defs split: option.splits)

lemma handle_syn_scale_accepts:
  "thrown s = None \<Longrightarrow> do_syn s \<Longrightarrow> thrown (handle_syn_scale c s) = None"
  by (simp add: handle_syn_scale_def basic_defs split: option.splits)

lemma handle_syn_niter_rejects:
  assumes "opt_syn_niter c = Some its" and "length its > 1" and "syn_init s"
  shows "thrown (handle_syn_niter c s) \<noteq> None"
    and "do_syn s \<Longrightarrow> thrown (handle_syn_niter c s) = Some (Exception syn_niter_levels_message)"
  using assms by (simp_all add: handle_syn_niter_def basic_defs message_defs)


lemma handle_syn_niter_frame [simp]:
  "do_syn (handle_syn_niter c s) = do_syn s"
  "do_rigid (handle_syn_niter c s) = do_rigid s"
  "do_affine (handle_syn_niter c s) = do_affine s"
  by (simp_all add: handle_syn_niter_def basic_defs split: option.splits)

lemma handle_syn_update_smooth_frame [simp]:
  "do_syn (handle_syn_update_smooth c s) = do_syn s"
  "do_rigid (handle_syn_update_smooth c s) = do_rigid s"
  "do_affine (handle_syn_update_smooth c s) = do_affine s"
  "thrown s = None \<Longrightarrow> do_syn s \<Longrightarrow> thrown (handle_syn_update_smooth c s) = None"
  by (simp_all add: handle_syn_update_smooth_def basic_defs split: option.splits)

lemma handle_syn_disp_smooth_frame [simp]:
  "do_syn (handle_syn_disp_smooth c s) = do_syn s"
  "do_rigid (handle_syn_disp_smooth c s) = do_rigid s"
  "do_affine (handle_syn_disp_smooth c s) = do_affine s"
  "thrown s = None \<Longrightarrow> do_syn s \<Longrightarrow> thrown (handle_syn_disp_smooth c s) = None"
  by (simp_all add: handle_syn_disp_smooth_def basic_defs split: option.splits)

lemma handle_syn_grad_step_frame [simp]:
  "do_syn (handle_syn_grad_step c s) = do_syn s"
  "do_rigid (handle_syn_grad_step c s) = do_rigid s"
  "do_affine (handle_syn_grad_step c s) = do_affine s"
  "thrown s = None \<Longrightarrow> do_syn s \<Longrightarrow> thrown (handle_syn_grad_step c s) = None"
  by (simp_all add: handle_syn_grad_step_def basic_defs split: option.splits)

lemma after_options_unfold:
  "thrown q = None \<Longrightarrow>
   seq (options_after_syn_init c) q =
     (let q2 = handle_syn_scale c q in
      if thrown q2 \<noteq> None then q2
      else (let q3 = handle_syn_niter c q2 in
            if thrown q3 \<noteq> None then q3
            else seq [handle_syn_update_smooth c, handle_syn_disp_smooth c,
                      handle_syn_grad_step c] q3))"
  by (simp add: options_after_syn_init_def Let_def)

lemma syn_niter_rejected:
  assumes "thrown q = None" and "syn_init q" and "opt_syn_niter c = Some its" and "length its > 1"
  shows "thrown (seq (options_after_syn_init c) q) \<noteq> None"
    and "do_syn q \<Longrightarrow>
         thrown (seq (options_after_syn_init c) q) = Some (Exception syn_niter_levels_message)"
proof -
  have n: "thrown (handle_syn_niter c (handle_syn_scale c q)) \<noteq> None"
    using handle_syn_niter_rejects(1) [OF assms(3,4), of "handle_syn_scale c q"] assms(2)
    by simp
  show "thrown (seq (options_after_syn_init c) q) \<noteq> None"
    using n by (simp add: after_options_unfold [OF assms(1)] Let_def)
  assume d: "do_syn q"
  have "thrown (handle_syn_scale c q) = None"
    using assms(1) d by (rule handle_syn_scale_accepts)
  moreover have "thrown (handle_syn_niter c (handle_syn_scale c q)) =
      Some (Exception syn_niter_levels_message)"
    using handle_syn_niter_rejects(2) [OF assms(3,4), of "handle_syn_scale c q"] assms(2) d
    by simp
  ultimately show "thrown (seq (options_after_syn_init c) q) =
      Some (Exception syn_niter_levels_message)"
    by (simp add: after_options_unfold [OF assms(1)] Let_def)
qed

lemma handle_syn_init_resumes:
  assumes "opt_syn_init c = Some 5" and "thrown b = None" and "do_syn b"
  shows "thrown (handle_syn_init c b) = None"
    and "syn_init (handle_syn_init c b)"
    and "do_syn (handle_syn_init c b)"
    and "\<not> do_rigid (handle_syn_init c b)"
    and "\<not> do_affine (handle_syn_init c b)"
    and "do_affine b \<Longrightarrow> WARN affine_superseded_warning \<in> set (trace (handle_syn_init c b))"
    and "do_rigid b \<Longrightarrow> WARN rigid_superseded_warning \<in> set (trace (handle_syn_init c b))"
  using assms
  by (simp_all add: handle_syn_init_def basic_defs Let_def message_defs
      warn_affine_superseded_def warn_rigid_superseded_def warn_affine_init_ignored_def
      warn_rigid_init_ignored_def)

lemma handle_syn_init_outcome:
  assumes "opt_syn_init c = Some nd" and "thrown b = None"
  shows "thrown (handle_syn_init c b) =
           (if \<not> do_syn b
            then Some (Exception
              ''the syn initialisation input when no syn registration is requested'')
            else if nd \<noteq> 5 then Some (Exception syn_init_not_5D_message)
            else None)"
    and "syn_init (handle_syn_init c b)"
  using assms
  by (simp_all add: handle_syn_init_def basic_defs Let_def message_defs
      warn_affine_superseded_def warn_rigid_superseded_def warn_affine_init_ignored_def
      warn_rigid_init_ignored_def)

subsection \<open>Events are never withdrawn\<close>










text \<open>
  What seeding a fresh transform gives: the centre and the matrix are those of the source,
  the translation is the source's translation \<open>t\<close> put through the offset computation
  once more, \<open>t + centre - M centre\<close>.
\<close>

lemma vsub_vadd [simp]: "vsub (vadd u v) v = u"
  by (cases v; cases u) simp

lemma seed_from_fresh:
  assumes "seed_from L r (Base n) = Inr a"
  shows "centre a = centre r \<and>
         linear_part (trafo a) = linear_part (trafo r) \<and>
         translation (trafo a) =
           vsub (vadd (translation (trafo r)) (centre r))
                (mat_vec (linear_part (trafo r)) (centre r))"
  using assms
  unfolding seed_from_def mutator_defs compute_offset_def Let_def get_centre_def
    get_translation_def get_matrix_def
  by (auto split: sum.splits dest!: compute_halfspace_Inr simp: Base_def Identity_def)

text \<open>
  So the seeded transform has the translation of its source only if the matrix of the
  source leaves the centre where it is.
\<close>

lemma seeded_differs:
  assumes "seed_from L r (Base n) = Inr a"
    and "mat_vec (get_matrix r) (get_centre r) \<noteq> get_centre r"
  shows "get_translation a \<noteq> get_translation r"
proof
  assume eq: "get_translation a = get_translation r"
  obtain t1 t2 t3 where t: "translation (trafo r) = (t1, t2, t3)"
    by (cases "translation (trafo r)")
  obtain c1 c2 c3 where c: "centre r = (c1, c2, c3)" by (cases "centre r")
  obtain m1 m2 m3 where m: "mat_vec (linear_part (trafo r)) (centre r) = (m1, m2, m3)"
    by (cases "mat_vec (linear_part (trafo r)) (centre r)")
  from seed_from_fresh [OF assms(1)] eq
  have "vsub (vadd (translation (trafo r)) (centre r))
          (mat_vec (linear_part (trafo r)) (centre r)) = translation (trafo r)"
    by (simp add: get_translation_def)
  then have "(m1, m2, m3) = (c1, c2, c3)" using m by (simp add: t c)
  with assms(2) m show False by (simp add: get_matrix_def get_centre_def c)
qed

subsection \<open>The example runs\<close>

lemmas program_defs =
  run_def program_def options_def options_before_syn_init_def options_after_syn_init_def
  input_program_def rigid_options_def affine_options_def registration_def outputs_def
  configured_def before_syn_init_def after_syn_init_def

lemma seed_example: "seed_from example_eigen registered Affine_new = Inr seeded"
  by (simp add: seed_from_def registered_def seeded_def Rigid_new_def Affine_new_def
      set_centre_def set_translation_def set_matrix_def get_centre_def get_translation_def
      get_matrix_def example_defs)

lemma eigen_example_env [simp]: "eigen example_env = example_eigen"
  by (simp add: example_env_def)

lemma run_masked_example_env [simp]:
  "run_masked_result example_env Rigid reg m t = registered"
  "run_masked_result example_env Affine reg m t = t"
  by (simp_all add: example_env_def)

lemma sh_example_env [simp]: "sh_series example_env n = False"
  by (simp add: example_env_def)

lemmas run_simps = program_defs handler_defs stage_defs output_defs basic_defs
  initial_state_def plain_cmdline_def volumes_4d_def Let_def seed_example message_defs

text \<open>
  The run with a rotation: the rotation is a state the class can be in, and the hand-off
  of lines 598 to 600 completes on it.
\<close>

lemmas rotation_defs = rotation_eigen_def eigen_double_def rotation_sqrt_def rotation_def
  Base_def Identity_def identity3_def isApprox_coeffs_def coeffs34_def sum_sq_def
  homogeneous_def compute_halfspace_transformations_def compute_offset_def trafo_inverse_def
  trafo_mult_def halfspace_invariant_def halves_recomputed_def Let_def

lemma turned_is_state:
  "halfspace_invariant rotation_eigen turned \<and> halves_recomputed rotation_eigen turned"
  by (simp add: turned_def Rigid_new_def rotation_defs)

lemma seed_turned: "seed_from rotation_eigen turned Affine_new = Inr turned_seed"
  by (simp add: seed_from_def turned_def turned_seed_def Rigid_new_def Affine_new_def
      set_centre_def set_translation_def set_matrix_def get_centre_def get_translation_def
      get_matrix_def rotation_defs)

lemma eigen_rotating_env [simp]: "eigen rotating_env = rotation_eigen"
  by (simp add: rotating_env_def)

lemma run_masked_rotating_env [simp]:
  "run_masked_result rotating_env Rigid reg m t = turned"
  "run_masked_result rotating_env Affine reg m t = t"
  by (simp_all add: rotating_env_def)

lemma sh_rotating_env [simp]: "sh_series rotating_env n = False"
  by (simp add: rotating_env_def example_env_def)

subsection \<open>The claims about the command\<close>

text \<open>
  C5, as the claim states it, fails when a rigid stage precedes the affine stage: with
  \<^verbatim>\<open>-type rigid_affine -affine_metric ncc\<close> on 4-D images the exception is thrown only
  when the affine stage is reached, after the rigid registration has run.
\<close>

theorem ncc_4d_after_rigid_counterexample:
  "im2_ndim rigid_affine_ncc_4d = 4 \<and>
   do_affine (configured example_env rigid_affine_ncc_4d) \<and>
   affine_metric (configured example_env rigid_affine_ncc_4d) = NCC \<and>
   thrown (run example_env rigid_affine_ncc_4d) = Some (Exception NCC_message) \<and>
   optimisations (trace (run example_env rigid_affine_ncc_4d)) =
     [Run_masked Rigid Linear_new MeanSquared4D Rigid_new registered]"
  by (simp add: rigid_affine_ncc_4d_def run_simps)


text \<open>
  C5, amended. On 4-D images, once the options are accepted: if the rigid stage is selected
  with the cross-correlation metric, the run ends with the exception before any
  registration or resampling; if the affine stage is selected with the cross-correlation
  metric, the run ends in failure (that exception, or a failed assertion while the affine
  transform is seeded from the rigid result) before the affine registration, the SyN
  registration and any resampling, and before any registration at all when no rigid stage
  is selected.
\<close>

theorem ncc_4d_rejected_at_stage_start:
  assumes "thrown (configured E c) = None" and "im2_ndim c = 4"
  shows "(do_rigid (configured E c) \<and> rigid_metric (configured E c) = NCC \<longrightarrow>
            thrown (run E c) = Some (Exception NCC_message) \<and>
            optimisations (trace (run E c)) = [] \<and> resamplings (trace (run E c)) = []) \<and>
         (do_affine (configured E c) \<and> affine_metric (configured E c) = NCC \<longrightarrow>
            (thrown (run E c) = Some (Exception NCC_message) \<or>
             (do_rigid (configured E c) \<and> (\<exists>e. thrown (run E c) = Some (AssertionFailed e)))) \<and>
            linear_runs Affine (trace (run E c)) = [] \<and>
            syn_runs (trace (run E c)) = [] \<and>
            resamplings (trace (run E c)) = [] \<and>
            (\<not> do_rigid (configured E c) \<longrightarrow> optimisations (trace (run E c)) = []))"
proof -
  define p where "p = configured E c"
  define s1 where "s1 = run_rigid_registration E c p"
  define s2 where "s2 = run_affine_registration E c s1"
  have pT: "thrown p = None" using assms(1) by (simp add: p_def)
  have pQ: "optimisations (trace p) = []" "resamplings (trace p) = []"
    by (simp_all add: p_def configured_quiet)
  note fr1 = rigid_stage_frame [of E c p, folded s1_def]
  have r1: "thrown s1 \<noteq> None \<Longrightarrow> run E c = s1"
    using pT by (simp add: run_split p_def [symmetric] registration_unfold s1_def Let_def seq_thrown)
  have r2: "thrown s1 = None \<Longrightarrow> thrown s2 \<noteq> None \<Longrightarrow> run E c = s2"
    using pT
    by (simp add: run_split p_def [symmetric] registration_unfold s1_def s2_def Let_def seq_thrown)
  have t1: "thrown s1 = (if do_rigid p \<and> rigid_metric p = NCC
                         then Some (Exception NCC_message) else None)"
    using rigid_stage_thrown [OF pT, of E c] assms(2) by (simp add: s1_def NCC_message_def)
  have o1: "thrown s1 \<noteq> None \<Longrightarrow> optimisations (trace s1) = []"
    using rigid_stage_runs [OF pT, of E c] rigid_stage_skipped [of p E c] pT pQ
    by (cases "do_rigid p") (auto simp: s1_def)
  have o1': "\<not> do_rigid p \<Longrightarrow> s1 = p"
    by (simp add: s1_def rigid_stage_skipped)
  have o1'': "linear_runs Affine (optimisations (trace s1)) = [] \<and>
              syn_runs (optimisations (trace s1)) = []"
    using rigid_stage_runs [OF pT, of E c] o1' pQ
    by (cases "do_rigid p") (auto simp: s1_def)
  show ?thesis
  proof (intro conjI impI)
    assume a: "do_rigid (configured E c) \<and> rigid_metric (configured E c) = NCC"
    then have t: "thrown s1 = Some (Exception NCC_message)" using t1 by (simp add: p_def)
    then have r: "run E c = s1" using r1 by simp
    show "thrown (run E c) = Some (Exception NCC_message)" using t r by simp
    show "optimisations (trace (run E c)) = []" using o1 t r by simp
    show "resamplings (trace (run E c)) = []" using fr1 pQ r by simp
  next
    assume a: "do_affine (configured E c) \<and> affine_metric (configured E c) = NCC"
    have A: "(thrown (run E c) = Some (Exception NCC_message) \<or>
             (do_rigid p \<and> (\<exists>e. thrown (run E c) = Some (AssertionFailed e)))) \<and>
            optimisations (trace (run E c)) = optimisations (trace s1) \<and>
            resamplings (trace (run E c)) = []"
    proof (cases "thrown s1 = None")
      case False
      with t1 have "thrown s1 = Some (Exception NCC_message)" by (auto split: if_splits)
      with False r1 fr1 pQ show ?thesis by simp
    next
      case True
      have da: "do_affine s1" "affine_metric s1 = NCC" using a fr1 by (simp_all add: p_def)
      from affine_stage_runs [OF True da(1), of E c] da(2) assms(2)
      have s2: "optimisations (trace s2) = optimisations (trace s1)"
        "(\<exists>e. thrown s2 = Some (AssertionFailed e) \<and> do_rigid s1) \<or>
          thrown s2 = Some (Exception NCC_message)"
        by (auto simp: s2_def)
      then have "thrown s2 \<noteq> None" by auto
      from r2 [OF True this] s2 fr1 pQ show ?thesis
        by (auto simp: affine_stage_frame s2_def)
    qed
    then show "thrown (run E c) = Some (Exception NCC_message) \<or>
             (do_rigid (configured E c) \<and> (\<exists>e. thrown (run E c) = Some (AssertionFailed e)))"
      by (simp add: p_def)
    show "linear_runs Affine (trace (run E c)) = []"
      using A o1'' linear_runs_optimisations [of Affine "trace (run E c)"] by simp
    show "syn_runs (trace (run E c)) = []"
      using A o1'' syn_runs_optimisations [of "trace (run E c)"] by simp
    show "resamplings (trace (run E c)) = []" using A by simp
    assume "\<not> do_rigid (configured E c)"
    then show "optimisations (trace (run E c)) = []" using A o1' pQ by (simp add: p_def)
  qed
qed

theorem ncc_4d_rejected_at_stage_start_witness:
  "(thrown (run example_env rigid_ncc_4d) = Some (Exception NCC_message) \<and>
    optimisations (trace (run example_env rigid_ncc_4d)) = [] \<and>
    resamplings (trace (run example_env rigid_ncc_4d)) = []) \<and>
   (linear_runs Affine (trace (run example_env rigid_affine_ncc_4d)) = [] \<and>
    syn_runs (trace (run example_env rigid_affine_ncc_4d)) = [] \<and>
    resamplings (trace (run example_env rigid_affine_ncc_4d)) = []) \<and>
   optimisations (trace (run example_env affine_ncc_4d)) = []"
proof -
  have a: "thrown (configured example_env rigid_ncc_4d) = None" "im2_ndim rigid_ncc_4d = 4"
    "do_rigid (configured example_env rigid_ncc_4d) \<and>
     rigid_metric (configured example_env rigid_ncc_4d) = NCC"
    by (simp_all add: rigid_ncc_4d_def run_simps)
  have b: "thrown (configured example_env rigid_affine_ncc_4d) = None"
    "im2_ndim rigid_affine_ncc_4d = 4"
    "do_affine (configured example_env rigid_affine_ncc_4d) \<and>
     affine_metric (configured example_env rigid_affine_ncc_4d) = NCC"
    by (simp_all add: rigid_affine_ncc_4d_def run_simps)
  have c: "thrown (configured example_env affine_ncc_4d) = None" "im2_ndim affine_ncc_4d = 4"
    "do_affine (configured example_env affine_ncc_4d) \<and>
     affine_metric (configured example_env affine_ncc_4d) = NCC"
    "\<not> do_rigid (configured example_env affine_ncc_4d)"
    by (simp_all add: affine_ncc_4d_def run_simps)
  from ncc_4d_rejected_at_stage_start [OF a(1,2)] a(3)
    ncc_4d_rejected_at_stage_start [OF b(1,2)] b(3)
    ncc_4d_rejected_at_stage_start [OF c(1,2)] c(3,4)
  show ?thesis by blast
qed


text \<open>
  C6. A run that gives \<^verbatim>\<open>-syn_init\<close> an image that is not 5-dimensional ends in failure
  before any registration or resampling, and so does a run that gives \<^verbatim>\<open>-syn_init\<close>
  together with a \<^verbatim>\<open>-syn_niter\<close> list of more than one level; when the options before
  \<^verbatim>\<open>-syn_init\<close> were accepted and the SyN stage is selected, the failure is the exception
  with the message about the 5D input, respectively (for a 5-D bundle) about the single
  level.
\<close>

theorem resumed_bundle_checks:
  "(opt_syn_init c = Some nd \<and> nd \<noteq> 5 \<longrightarrow>
      thrown (run E c) \<noteq> None \<and>
      optimisations (trace (run E c)) = [] \<and> resamplings (trace (run E c)) = [] \<and>
      (thrown (before_syn_init E c) = None \<and> do_syn (before_syn_init E c) \<longrightarrow>
         thrown (run E c) = Some (Exception syn_init_not_5D_message))) \<and>
   (opt_syn_init c = Some nd \<and> opt_syn_niter c = Some its \<and> length its > 1 \<longrightarrow>
      thrown (run E c) \<noteq> None \<and>
      optimisations (trace (run E c)) = [] \<and> resamplings (trace (run E c)) = [] \<and>
      (thrown (before_syn_init E c) = None \<and> do_syn (before_syn_init E c) \<and> nd = 5 \<longrightarrow>
         thrown (run E c) = Some (Exception syn_niter_levels_message)))"
proof (intro conjI impI)
  assume a: "opt_syn_init c = Some nd \<and> nd \<noteq> 5"
  then have t: "thrown (after_syn_init E c) \<noteq> None"
    using handle_syn_init_outcome(1) [of c nd "before_syn_init E c"]
    by (auto simp: after_syn_init_unfold)
  then have r: "run E c = after_syn_init E c" by (rule run_of_thrown_after_syn_init)
  show "thrown (run E c) \<noteq> None" using t r by simp
  show "optimisations (trace (run E c)) = []" "resamplings (trace (run E c)) = []"
    using r after_syn_init_quiet [of E c] by simp_all
  assume "thrown (before_syn_init E c) = None \<and> do_syn (before_syn_init E c)"
  then show "thrown (run E c) = Some (Exception syn_init_not_5D_message)"
    using a r handle_syn_init_outcome(1) [of c nd "before_syn_init E c"]
    by (simp add: after_syn_init_unfold)
next
  assume a: "opt_syn_init c = Some nd \<and> opt_syn_niter c = Some its \<and> length its > 1"
  have t: "thrown (configured E c) \<noteq> None"
  proof (cases "thrown (after_syn_init E c) = None")
    case False
    then show ?thesis by (simp add: configured_split seq_thrown)
  next
    case True
    then have "syn_init (after_syn_init E c)"
      using a handle_syn_init_outcome(2) [of c nd "before_syn_init E c"]
      by (auto simp: after_syn_init_unfold split: if_splits)
    from syn_niter_rejected(1) [OF True this, of c its] a show ?thesis
      by (simp add: configured_split)
  qed
  then show "thrown (run E c) \<noteq> None" by (simp add: run_of_thrown_configuration)
  show "optimisations (trace (run E c)) = []" "resamplings (trace (run E c)) = []"
    using run_quiet_when_configuration_thrown [OF t] by simp_all
  assume b: "thrown (before_syn_init E c) = None \<and> do_syn (before_syn_init E c) \<and> nd = 5"
  have q: "thrown (after_syn_init E c) = None" "syn_init (after_syn_init E c)"
    "do_syn (after_syn_init E c)"
    using a b handle_syn_init_resumes(1-3) [of c "before_syn_init E c"]
    by (simp_all add: after_syn_init_unfold)
  from syn_niter_rejected(2) [OF q(1) q(2), of c its] a q(3)
  show "thrown (run E c) = Some (Exception syn_niter_levels_message)"
    using t by (simp add: run_of_thrown_configuration configured_split)
qed

theorem resumed_bundle_checks_witness:
  "thrown (run example_env resume_4d_bundle) = Some (Exception syn_init_not_5D_message) \<and>
   optimisations (trace (run example_env resume_4d_bundle)) = [] \<and>
   thrown (run example_env resume_two_levels) = Some (Exception syn_niter_levels_message) \<and>
   optimisations (trace (run example_env resume_two_levels)) = []"
proof -
  have a: "opt_syn_init resume_4d_bundle = Some 4 \<and> (4::nat) \<noteq> 5"
    "thrown (before_syn_init example_env resume_4d_bundle) = None \<and>
     do_syn (before_syn_init example_env resume_4d_bundle)"
    by (simp_all add: resume_4d_bundle_def run_simps)
  have b: "opt_syn_init resume_two_levels = Some 5 \<and>
     opt_syn_niter resume_two_levels = Some [10, 5] \<and> length [10, 5 :: int] > 1"
    "thrown (before_syn_init example_env resume_two_levels) = None \<and>
     do_syn (before_syn_init example_env resume_two_levels) \<and> (5::nat) = 5"
    by (simp_all add: resume_two_levels_def run_simps)
  from resumed_bundle_checks [of resume_4d_bundle 4 example_env] a
    resumed_bundle_checks [of resume_two_levels 5 example_env "[10, 5]"] b
  show ?thesis by blast
qed






text \<open>
  C8 does not hold of the code: \<^verbatim>\<open>-type rigid\<close> together with \<^verbatim>\<open>-affine_metric\<close>,
  \<^verbatim>\<open>-affine_robust_estimator\<close>, \<^verbatim>\<open>-affine_centre\<close> and \<^verbatim>\<open>-affine_global_search\<close> is
  accepted; the run ends without failure after the rigid registration.
\<close>

theorem unselected_stage_options_accepted:
  "\<not> do_affine (configured example_env rigid_with_affine_options) \<and>
   opt_affine_metric rigid_with_affine_options = Some 1 \<and>
   opt_affine_robust_estimator rigid_with_affine_options = Some 0 \<and>
   opt_affine_centre rigid_with_affine_options = Some 0 \<and>
   opt_affine_global_search rigid_with_affine_options \<and>
   thrown (run example_env rigid_with_affine_options) = None \<and>
   trace (run example_env rigid_with_affine_options) =
     [Run_masked Rigid Linear_new MeanSquared Rigid_new registered]"
  by (simp add: rigid_with_affine_options_def run_simps)


text \<open>
  The order of the stages and what is handed from one to the next. In every run the
  registrations happen in the order rigid, affine, SyN, each at most once, and a run that
  ends without failure has performed every stage that was selected when the options had
  been handled. Whenever a rigid and an affine registration both ran, the affine
  registration started from the transform that \<^verbatim>\<open>set_centre\<close>, \<^verbatim>\<open>set_translation\<close> and
  \<^verbatim>\<open>set_matrix\<close> make of a fresh affine transform when given the centre, the translation
  and the matrix of the rigid result (\<open>seed_from_fresh\<close> gives its value), and with the
  initialisation type of the affine registration set to none. The SyN registration
  received the result of the affine registration if one ran, otherwise the result of the
  rigid registration if one ran, otherwise a fresh affine transform, which is the identity.
\<close>

lemma stage_order_and_handoff:
  "sorted_wrt (<) (map rank (optimisations (trace (run E c)))) \<and>
   (\<forall>(reg_r, rin, rout) \<in> set (linear_runs Rigid (trace (run E c))).
      \<forall>(reg_a, ain, aout) \<in> set (linear_runs Affine (trace (run E c))).
        seed_from (eigen E) rout Affine_new = Inr ain \<and> lin_init_type reg_a = Some Init_none) \<and>
   (\<forall>t \<in> set (syn_runs (trace (run E c))).
      t = (case linear_runs Affine (trace (run E c)) of
             (reg_a, ain, aout) # _ \<Rightarrow> aout
           | [] \<Rightarrow>
               (case linear_runs Rigid (trace (run E c)) of
                  (reg_r, rin, rout) # _ \<Rightarrow> rout
                | [] \<Rightarrow> Affine_new))) \<and>
   get_transform Affine_new = Identity \<and>
   (thrown (run E c) = None \<longrightarrow>
      (do_rigid (configured E c) \<longrightarrow> linear_runs Rigid (trace (run E c)) \<noteq> []) \<and>
      (do_affine (configured E c) \<longrightarrow> linear_runs Affine (trace (run E c)) \<noteq> []) \<and>
      (do_syn (configured E c) \<longrightarrow> syn_runs (trace (run E c)) \<noteq> []))"
proof (cases "thrown (configured E c) = None")
  case False
  then have thr: "thrown (run E c) \<noteq> None" by (simp add: run_of_thrown_configuration)
  from False have "optimisations (trace (run E c)) = []"
    by (simp add: run_of_thrown_configuration configured_quiet)
  then have "linear_runs Rigid (trace (run E c)) = []" "linear_runs Affine (trace (run E c)) = []"
    "syn_runs (trace (run E c)) = []" "optimisations (trace (run E c)) = []"
    using linear_runs_optimisations [of _ "trace (run E c)"]
      syn_runs_optimisations [of "trace (run E c)"] by simp_all
  then show ?thesis using thr by (auto simp: Affine_new_def Base_def get_transform_def)
next
  case True
  define p where "p = configured E c"
  have pT: "thrown p = None" using True by (simp add: p_def)
  have pQ: "optimisations (trace p) = []" by (simp add: p_def configured_quiet)
  have fresh: "do_rigid p \<Longrightarrow> affine p = Affine_new"
    using configured_affine_fresh [OF True] by (simp add: p_def)
  have "\<exists>R A S. optimisations (trace (run E c)) = R @ A @ S \<and>
      (R = [] \<or> (do_rigid p \<and> (\<exists>reg m rout. R = [Run_masked Rigid reg m (rigid p) rout]))) \<and>
      (A = [] \<or> (do_affine p \<and> (\<exists>reg m ain aout. A = [Run_masked Affine reg m ain aout] \<and>
          (if do_rigid p
           then \<exists>reg' m' rout. R = [Run_masked Rigid reg' m' (rigid p) rout] \<and>
                  seed_from (eigen E) rout (affine p) = Inr ain \<and>
                  lin_init_type reg = Some Init_none
           else ain = affine p)))) \<and>
      (S = [] \<or> (do_syn p \<and> thrown (run E c) = None \<and> (\<exists>sreg t. S = [Syn_run sreg t] \<and>
          (if do_affine p then \<exists>reg m ain. A = [Run_masked Affine reg m ain t]
           else if do_rigid p then \<exists>reg m. R = [Run_masked Rigid reg m (rigid p) t]
           else t = Affine_new)))) \<and>
      (thrown (run E c) = None \<longrightarrow>
         (do_rigid p \<longrightarrow> R \<noteq> []) \<and> (do_affine p \<longrightarrow> A \<noteq> []) \<and> (do_syn p \<longrightarrow> S \<noteq> []))"
    using registration_summary [OF pT pQ, of c E]
    unfolding run_split p_def [symmetric] .
  then obtain R A S where sm:
     "optimisations (trace (run E c)) = R @ A @ S \<and>
      (R = [] \<or> (do_rigid p \<and> (\<exists>reg m rout. R = [Run_masked Rigid reg m (rigid p) rout]))) \<and>
      (A = [] \<or> (do_affine p \<and> (\<exists>reg m ain aout. A = [Run_masked Affine reg m ain aout] \<and>
          (if do_rigid p
           then \<exists>reg' m' rout. R = [Run_masked Rigid reg' m' (rigid p) rout] \<and>
                  seed_from (eigen E) rout (affine p) = Inr ain \<and>
                  lin_init_type reg = Some Init_none
           else ain = affine p)))) \<and>
      (S = [] \<or> (do_syn p \<and> thrown (run E c) = None \<and> (\<exists>sreg t. S = [Syn_run sreg t] \<and>
          (if do_affine p then \<exists>reg m ain. A = [Run_masked Affine reg m ain t]
           else if do_rigid p then \<exists>reg m. R = [Run_masked Rigid reg m (rigid p) t]
           else t = Affine_new)))) \<and>
      (thrown (run E c) = None \<longrightarrow>
         (do_rigid p \<longrightarrow> R \<noteq> []) \<and> (do_affine p \<longrightarrow> A \<noteq> []) \<and> (do_syn p \<longrightarrow> S \<noteq> []))"
    by (elim exE) (rule that)
  note tr = sm [THEN conjunct1]
  note R = sm [THEN conjunct2, THEN conjunct1]
  note A = sm [THEN conjunct2, THEN conjunct2, THEN conjunct1]
  note S = sm [THEN conjunct2, THEN conjunct2, THEN conjunct2, THEN conjunct1]
  note all = sm [THEN conjunct2, THEN conjunct2, THEN conjunct2, THEN conjunct2]
  have lr: "linear_runs st (trace (run E c)) = linear_runs st R @ linear_runs st A @ linear_runs st S"
    for st
    using linear_runs_optimisations [of st "trace (run E c)"] by (simp add: tr linear_runs_append)
  have sr: "syn_runs (trace (run E c)) = syn_runs R @ syn_runs A @ syn_runs S"
    using syn_runs_optimisations [of "trace (run E c)"] by (simp add: tr syn_runs_append)
  have order: "sorted_wrt (<) (map rank (R @ A @ S))"
    using R A S by (auto split: if_splits)
  have seed: "\<forall>(reg_r, rin, rout) \<in> set (linear_runs Rigid (R @ A @ S)).
      \<forall>(reg_a, ain, aout) \<in> set (linear_runs Affine (R @ A @ S)).
        seed_from (eigen E) rout Affine_new = Inr ain \<and> lin_init_type reg_a = Some Init_none"
    using R A S fresh by (auto split: if_splits)
  have syn: "\<forall>t \<in> set (syn_runs (R @ A @ S)).
      t = (case linear_runs Affine (R @ A @ S) of
             (reg_a, ain, aout) # _ \<Rightarrow> aout
           | [] \<Rightarrow>
               (case linear_runs Rigid (R @ A @ S) of
                  (reg_r, rin, rout) # _ \<Rightarrow> rout
                | [] \<Rightarrow> Affine_new))"
    using R A S by (auto split: if_splits)
  have fresh_identity: "get_transform Affine_new = Identity"
    by (simp add: Affine_new_def Base_def get_transform_def)
  have ran: "thrown (run E c) = None \<longrightarrow>
      (do_rigid (configured E c) \<longrightarrow> linear_runs Rigid (R @ A @ S) \<noteq> []) \<and>
      (do_affine (configured E c) \<longrightarrow> linear_runs Affine (R @ A @ S) \<noteq> []) \<and>
      (do_syn (configured E c) \<longrightarrow> syn_runs (R @ A @ S) \<noteq> [])"
  proof (intro impI conjI)
    assume t: "thrown (run E c) = None"
    {
      assume "do_rigid (configured E c)"
      then have d: "do_rigid p" by (simp add: p_def)
      with all t have "R \<noteq> []" by simp
      with R obtain reg m rout where "R = [Run_masked Rigid reg m (rigid p) rout]" by blast
      then show "linear_runs Rigid (R @ A @ S) \<noteq> []" by (simp add: linear_runs_append)
    }
    {
      assume "do_affine (configured E c)"
      then have d: "do_affine p" by (simp add: p_def)
      with all t have "A \<noteq> []" by simp
      with A obtain reg m ain aout where "A = [Run_masked Affine reg m ain aout]" by blast
      then show "linear_runs Affine (R @ A @ S) \<noteq> []" by (simp add: linear_runs_append)
    }
    {
      assume "do_syn (configured E c)"
      then have d: "do_syn p" by (simp add: p_def)
      with all t have "S \<noteq> []" by simp
      with S obtain sreg u where "S = [Syn_run sreg u]" by blast
      then show "syn_runs (R @ A @ S) \<noteq> []" by (simp add: syn_runs_append)
    }
  qed
  show ?thesis
    using order seed syn fresh_identity ran
    by (simp only: tr lr sr linear_runs_append syn_runs_append)
qed

lemma stage_order_and_handoff_example:
  "linear_runs Rigid (trace (run example_env all_stages)) =
     [(Linear_new, Rigid_new, registered)] \<and>
   linear_runs Affine (trace (run example_env all_stages)) =
     [(Linear_new\<lparr>lin_robust_estimate := Some False, lin_init_type := Some Init_none\<rparr>,
       seeded, seeded)] \<and>
   syn_runs (trace (run example_env all_stages)) = [seeded] \<and>
   seed_from (eigen example_env) registered Affine_new = Inr seeded \<and>
   thrown (run example_env all_stages) = None \<and>
   do_rigid (configured example_env all_stages) \<and>
   do_affine (configured example_env all_stages) \<and>
   do_syn (configured example_env all_stages)"
proof -
  have tr: "trace (run example_env all_stages) =
     [Run_masked Rigid Linear_new MeanSquared Rigid_new registered,
      Run_masked Affine
        (Linear_new\<lparr>lin_robust_estimate := Some False, lin_init_type := Some Init_none\<rparr>)
        MeanSquared seeded seeded,
      Syn_run SyN_new seeded]"
    by (simp add: all_stages_def run_simps)
  have fl: "thrown (run example_env all_stages) = None"
    "do_rigid (configured example_env all_stages)"
    "do_affine (configured example_env all_stages)"
    "do_syn (configured example_env all_stages)"
    by (simp_all add: all_stages_def run_simps)
  from stage_order_and_handoff [of example_env all_stages] fl show ?thesis
    unfolding tr by simp
qed


text \<open>
  C9. The affine stage is not initialised from the rigid result. Lines 598 to 600 hand the
  centre, the translation and the matrix of the rigid result to \<^verbatim>\<open>set_centre\<close>,
  \<^verbatim>\<open>set_translation\<close> and \<^verbatim>\<open>set_matrix\<close> of the affine transform. \<^verbatim>\<open>get_translation\<close>
  returns the stored translation, in which the offset \<open>centre - M centre\<close> is already
  contained, and \<^verbatim>\<open>set_matrix\<close> adds that offset once more. In the run of
  \<^verbatim>\<open>mrregister im1 im2 -type rigid_affine\<close> below the rigid stage returns a rotation about
  the centre (25, 0, 0), with translation (18, -24, 0), under which the centre stays where
  it is. Both registrations run and none fails; the affine registration starts from a
  transform with the same centre and the same matrix, but with translation (36, -48, 0),
  which takes the centre to (43, -24, 0).
\<close>

theorem affine_seed_offset_twice:
  "thrown (run rotating_env rigid_then_affine) = None \<and>
   trace (run rotating_env rigid_then_affine) =
     [Run_masked Rigid Linear_new MeanSquared Rigid_new turned,
      Run_masked Affine
        (Linear_new\<lparr>lin_robust_estimate := Some False, lin_init_type := Some Init_none\<rparr>)
        MeanSquared turned_seed turned_seed] \<and>
   get_centre turned = (25, 0, 0) \<and>
   get_centre turned_seed = get_centre turned \<and>
   get_matrix turned = ((7 / 25, - (24 / 25), 0), (24 / 25, 7 / 25, 0), (0, 0, 1)) \<and>
   get_matrix turned_seed = get_matrix turned \<and>
   get_translation turned = (18, - 24, 0) \<and>
   get_translation turned_seed = (36, - 48, 0) \<and>
   transform turned (25, 0, 0) = (25, 0, 0) \<and>
   transform turned_seed (25, 0, 0) = (43, - 24, 0) \<and>
   get_transform turned_seed \<noteq> get_transform turned"
proof -
  have ran: "thrown (run rotating_env rigid_then_affine) = None \<and>
      trace (run rotating_env rigid_then_affine) =
        [Run_masked Rigid Linear_new MeanSquared Rigid_new turned,
         Run_masked Affine
           (Linear_new\<lparr>lin_robust_estimate := Some False, lin_init_type := Some Init_none\<rparr>)
           MeanSquared turned_seed turned_seed]"
    by (simp add: rigid_then_affine_def run_simps seed_turned)
  have differ: "get_centre turned = (25, 0, 0) \<and>
      get_centre turned_seed = get_centre turned \<and>
      get_matrix turned = ((7 / 25, - (24 / 25), 0), (24 / 25, 7 / 25, 0), (0, 0, 1)) \<and>
      get_matrix turned_seed = get_matrix turned \<and>
      get_translation turned = (18, - 24, 0) \<and>
      get_translation turned_seed = (36, - 48, 0) \<and>
      transform turned (25, 0, 0) = (25, 0, 0) \<and>
      transform turned_seed (25, 0, 0) = (43, - 24, 0) \<and>
      get_transform turned_seed \<noteq> get_transform turned"
    by (simp add: turned_def turned_seed_def Rigid_new_def Affine_new_def get_centre_def
        get_matrix_def get_translation_def get_transform_def transform_def trafo_apply_def
        rotation_def Base_def)
  show ?thesis
    by (rule conjI [OF conjunct1 [OF ran] conjI [OF conjunct2 [OF ran] differ]])
qed

end
